theory Spec2Isabelle
  imports
    Complex_Main
    "HOL-Library.Multiset"
    "HOL-Library.Char_ord"
    "HOL-Library.List_Lexorder"
    "HOL-Library.Sublist"
    "HOL-Library.Log_Nat"
begin

section \<open>The two relations\<close>

text \<open>
  \<^verbatim>\<open>app.py\<close> keeps all its state in two PostgreSQL relations, \<^verbatim>\<open>users\<close> and
  \<^verbatim>\<open>matches\<close>, and reads rows back as dictionaries (\<^verbatim>\<open>RealDictCursor\<close>). A row is a
  record whose fields are the columns the queries name. Python's unbounded integers are
  \<^typ>\<open>int\<close>. A float is the rational number it denotes (\<^typ>\<open>rat\<close>); where the
  program computes with floats, every operation rounds its result to a double (section
  ``Double-precision arithmetic''). A string is the list of the bytes of its UTF-8
  encoding, so ASCII text is the list of its characters and every other character is a
  run of bytes from 128 upward. The role is the text stored in the column
  (\<^verbatim>\<open>'player'\<close> or \<^verbatim>\<open>'admin'\<close>), compared as the source compares it.
\<close>

record user_row =
  u_id :: int
  username :: string
  password_hash :: string
  role :: string

record match_row =
  m_id :: int
  user_id :: int
  player_name :: string
  win_loss :: string
  map_name :: string
  agent :: string
  current_rank :: string
  acs :: int
  econ_rating :: rat
  kills :: int
  deaths :: int
  assists :: int

text \<open>
  Modelled from the spec: the schema of the two relations is not in the sources. Ids
  are generated on creation (a counter per relation, as a serial column) and
  \<^verbatim>\<open>users.username\<close> is unique.
\<close>

record database =
  users :: "user_row list"
  matches :: "match_row list"
  users_seq :: int
  matches_seq :: int

datatype py_error = KeyError string | ValueError | IntegrityError

datatype shown = Error string | Success string | Info string

section \<open>Auth helpers\<close>

text \<open>
  \<^verbatim>\<open>def get_user(username):
      query = "SELECT * FROM users WHERE username = %s"
      ... return cur.fetchone()\<close>
  The first row with that exact username, or nothing.
\<close>

definition get_user :: "database \<Rightarrow> string \<Rightarrow> user_row option" where
  "get_user db name = find (\<lambda>u. username u = name) (users db)"

text \<open>
  \<^verbatim>\<open>bcrypt\<close> is a library. What it computes on a password it accepts is a parameter
  of the functions that call it: \<open>checkpw\<close> for \<^verbatim>\<open>bcrypt.checkpw\<close>, \<open>hashpw\<close> for
  \<^verbatim>\<open>\<lambda>pw. bcrypt.hashpw(pw, bcrypt.gensalt())\<close>. Both library functions refuse a password
  of more than 72 bytes with \<^verbatim>\<open>ValueError\<close> (bcrypt 5; the repository pins no
  version). The stored hashes are results of \<^verbatim>\<open>hashpw\<close>, so \<^verbatim>\<open>checkpw\<close> has no
  other error.
  \<^verbatim>\<open>def verify_password(password, password_hash):
      return bcrypt.checkpw(password.encode('utf-8'), password_hash.encode('utf-8'))\<close>
\<close>

definition verify_password ::
  "(string \<Rightarrow> string \<Rightarrow> bool) \<Rightarrow> string \<Rightarrow> string \<Rightarrow> py_error + bool" where
  "verify_password checkpw password hash =
     (if 72 < length password then Inl ValueError else Inr (checkpw password hash))"

text \<open>
  Modelled from the spec: the table definition behind
  \<^verbatim>\<open>INSERT INTO users (username, password_hash, role) VALUES (...)\<close> is not in the
  sources. The id comes from the relation's counter; a username already present violates
  the unique constraint and the statement raises.
\<close>

definition insert_user :: "database \<Rightarrow> string \<Rightarrow> string \<Rightarrow> string \<Rightarrow> py_error + database" where
  "insert_user db name hashed r =
     (if name \<in> username ` set (users db) then Inl IntegrityError
      else Inr (db\<lparr>users := users db @
                      [\<lparr>u_id = users_seq db, username = name, password_hash = hashed, role = r\<rparr>],
                    users_seq := users_seq db + 1\<rparr>))"

text \<open>
  \<^verbatim>\<open>def register_user(username, password):
      hashed = bcrypt.hashpw(password.encode('utf-8'), bcrypt.gensalt()).decode('utf-8')
      try:
          ... cur.execute("INSERT INTO users (username, password_hash, role)
                           VALUES (%s, %s, 'player')", (username, hashed))
          conn.commit()
          return True
      except Exception as e:
          st.error(f"Error registering user: {e}")
          return False\<close>
  The hash is computed before the \<^verbatim>\<open>try\<close>: a password that \<^verbatim>\<open>hashpw\<close> refuses
  raises out of the function. Otherwise the result is the database, what was shown, and
  the returned flag. The text of the exception inside the message is left out.
\<close>

definition register_user ::
  "(string \<Rightarrow> string) \<Rightarrow> database \<Rightarrow> string \<Rightarrow> string \<Rightarrow>
   py_error + database \<times> shown list \<times> bool" where
  "register_user hashpw db name password =
     (if 72 < length password then Inl ValueError
      else
        let hashed = hashpw password in
        case insert_user db name hashed ''player'' of
          Inr db' \<Rightarrow> Inr (db', [], True)
        | Inl e \<Rightarrow> Inr (db, [Error ''Error registering user''], False))"

text \<open>
  \<^verbatim>\<open>def login(username, password):
      user = get_user(username)
      if user and verify_password(password, user["password_hash"]):
          return user
      return None\<close>
  A fetched row is a non-empty dictionary, hence true as a condition. \<^verbatim>\<open>and\<close> is
  evaluated from the left: \<^verbatim>\<open>verify_password\<close> is called only when a user was found,
  and an exception of it is not caught.
\<close>

definition login ::
  "(string \<Rightarrow> string \<Rightarrow> bool) \<Rightarrow> database \<Rightarrow> string \<Rightarrow> string \<Rightarrow> py_error + user_row option" where
  "login checkpw db name password =
     (case get_user db name of
        None \<Rightarrow> Inr None
      | Some user \<Rightarrow>
          (case verify_password checkpw password (password_hash user) of
             Inl e \<Rightarrow> Inl e
           | Inr ok \<Rightarrow> Inr (if ok then Some user else None)))"

section \<open>Login and registration screen\<close>

text \<open>\<^verbatim>\<open>str.capitalize\<close> on ASCII text: the first character in upper case, the rest in lower case.\<close>

definition ascii_upper :: "char \<Rightarrow> char" where
  "ascii_upper c =
     (case map_of (zip ''abcdefghijklmnopqrstuvwxyz'' ''ABCDEFGHIJKLMNOPQRSTUVWXYZ'') c of
        Some u \<Rightarrow> u | None \<Rightarrow> c)"

definition ascii_lower :: "char \<Rightarrow> char" where
  "ascii_lower c =
     (case map_of (zip ''ABCDEFGHIJKLMNOPQRSTUVWXYZ'' ''abcdefghijklmnopqrstuvwxyz'') c of
        Some l \<Rightarrow> l | None \<Rightarrow> c)"

fun capitalize :: "string \<Rightarrow> string" where
  "capitalize [] = []"
| "capitalize (c # s) = ascii_upper c # map ascii_lower s"

text \<open>
  \<^verbatim>\<open>if st.button("Login"):
      user = login(username, password)
      if user:
          st.session_state.user = user
          st.success(f"Welcome {user['username']} ({user['role'].capitalize()})")
          st.rerun()
      else:
          st.error("Invalid username or password.")\<close>
  The result is the session's user and what was shown, or the exception that ended the
  run.
\<close>

definition login_button ::
  "(string \<Rightarrow> string \<Rightarrow> bool) \<Rightarrow> database \<Rightarrow> string \<Rightarrow> string \<Rightarrow>
   py_error + user_row option \<times> shown list" where
  "login_button checkpw db name password =
     (case login checkpw db name password of
        Inl e \<Rightarrow> Inl e
      | Inr (Some user) \<Rightarrow>
          Inr (Some user,
               [Success (''Welcome '' @ username user @ '' ('' @ capitalize (role user) @ '')'')])
      | Inr None \<Rightarrow> Inr (None, [Error ''Invalid username or password.'']))"

text \<open>
  \<^verbatim>\<open>if st.button("Register"):
      if new_pass != confirm_pass:
          st.error("Passwords do not match.")
      elif get_user(new_user):
          st.error("Username already exists.")
      else:
          if register_user(new_user, new_pass):
              st.success("Registration successful! You can now log in.")\<close>
  The result is the database and what was shown, or the exception that ended the run.
\<close>

definition register_button ::
  "(string \<Rightarrow> string) \<Rightarrow> database \<Rightarrow> string \<Rightarrow> string \<Rightarrow> string \<Rightarrow>
   py_error + database \<times> shown list" where
  "register_button hashpw db new_user new_pass confirm_pass =
     (if new_pass \<noteq> confirm_pass then Inr (db, [Error ''Passwords do not match.''])
      else if get_user db new_user \<noteq> None then Inr (db, [Error ''Username already exists.''])
      else
        (case register_user hashpw db new_user new_pass of
           Inl e \<Rightarrow> Inl e
         | Inr (db', msgs, ok) \<Rightarrow>
             Inr (db', msgs @ (if ok then [Success ''Registration successful! You can now log in.'']
                               else []))))"

section \<open>Match helpers\<close>

text \<open>
  \<^verbatim>\<open>def calculate_kd_ratio(kills, deaths):
      return kills if deaths == 0 else kills / deaths\<close>
\<close>

definition calculate_kd_ratio :: "int \<Rightarrow> int \<Rightarrow> rat" where
  "calculate_kd_ratio k d = (if d = 0 then of_int k else of_int k / of_int d)"

text \<open>
  \<^verbatim>\<open>DELETE FROM t WHERE p\<close>: the table is scanned and every row on which the predicate
  holds is dropped; deleting no row is not an error.
\<close>

primrec delete_where :: "('r \<Rightarrow> bool) \<Rightarrow> 'r list \<Rightarrow> 'r list" where
  "delete_where p [] = []"
| "delete_where p (r # rs) = (if p r then delete_where p rs else r # delete_where p rs)"

text \<open>
  \<^verbatim>\<open>def delete_match(record_id, user):
      if user["role"] == "player":
          cur.execute("DELETE FROM matches WHERE id = %s AND user_id = %s", (record_id, user["id"]))
      else:
          cur.execute("DELETE FROM matches WHERE id = %s", (record_id,))\<close>
\<close>

definition delete_match :: "int \<Rightarrow> user_row \<Rightarrow> database \<Rightarrow> database" where
  "delete_match record_id user db =
     (if role user = ''player''
      then db\<lparr>matches := delete_where (\<lambda>r. m_id r = record_id \<and> user_id r = u_id user) (matches db)\<rparr>
      else db\<lparr>matches := delete_where (\<lambda>r. m_id r = record_id) (matches db)\<rparr>)"

text \<open>
  \<^verbatim>\<open>def add_match(user_id, player_name, win_loss, map_name, agent, current_rank, acs,
                econ_rating, kills, deaths, assists):
      ... INSERT INTO matches (user_id, player_name, ...) VALUES (%s, %s, ...)\<close>
  One row is appended; its id comes from the relation's counter.
\<close>

definition add_match ::
  "int \<Rightarrow> string \<Rightarrow> string \<Rightarrow> string \<Rightarrow> string \<Rightarrow> string \<Rightarrow> int \<Rightarrow> rat \<Rightarrow> int \<Rightarrow> int \<Rightarrow> int \<Rightarrow>
   database \<Rightarrow> database" where
  "add_match uid pname wl mp ag cr a er k d s db =
     db\<lparr>matches := matches db @
            [\<lparr>m_id = matches_seq db, user_id = uid, player_name = pname, win_loss = wl,
              map_name = mp, agent = ag, current_rank = cr, acs = a, econ_rating = er,
              kills = k, deaths = d, assists = s\<rparr>],
        matches_seq := matches_seq db + 1\<rparr>"

text \<open>
  \<^verbatim>\<open>SELECT * FROM matches WHERE player_name = %s ORDER BY id DESC\<close> and
  \<^verbatim>\<open>SELECT * FROM matches ORDER BY id DESC\<close>.
\<close>

definition fetch_matches_by_user :: "database \<Rightarrow> string \<Rightarrow> match_row list" where
  "fetch_matches_by_user db name =
     sort_key (\<lambda>r. - m_id r) (filter (\<lambda>r. player_name r = name) (matches db))"

definition fetch_all_matches :: "database \<Rightarrow> match_row list" where
  "fetch_all_matches db = sort_key (\<lambda>r. - m_id r) (matches db)"

section \<open>The match form\<close>

text \<open>
  The values of the form's widgets when it is submitted. The handler tests the numeric
  inputs for being absent, so they are optional here.
\<close>

record match_form =
  f_player_name :: string
  f_win_loss :: string
  f_map_name :: string
  f_agent :: string
  f_current_rank :: string
  f_acs :: "int option"
  f_econ_rating :: rat
  f_kills :: "int option"
  f_deaths :: "int option"
  f_assists :: "int option"

text \<open>
  \<^verbatim>\<open>is_player = user["role"] == "player"
  ...
  if is_player:
      player_name = user["username"]\<close>
\<close>

definition submitted_name :: "user_row \<Rightarrow> match_form \<Rightarrow> string" where
  "submitted_name user form =
     (if role user = ''player'' then username user else f_player_name form)"

text \<open>
  \<^verbatim>\<open>if submitted:
      if is_player:
          player_name = user["username"]
      if not player_name:
          st.error("Player name is required.")
      if not acs or kills is None or deaths is None or assists is None:
          st.error("Please fill in all required fields.")
      else:
          add_match(user["id"], player_name, win_loss, map_name, agent, current_rank, acs,
                    econ_rating, kills, deaths, assists)
          st.success("Match details added successfully!")\<close>
  The second \<^verbatim>\<open>if\<close> is not an \<^verbatim>\<open>elif\<close>: it is evaluated whatever the first one
  did. \<^verbatim>\<open>not acs\<close> holds for an absent value and for 0.
\<close>

definition py_not :: "int option \<Rightarrow> bool" where
  "py_not v = (v = None \<or> v = Some 0)"

definition match_form_submit :: "user_row \<Rightarrow> match_form \<Rightarrow> database \<Rightarrow> database \<times> shown list" where
  "match_form_submit user form db =
     (let pname = submitted_name user form;
          msgs = (if pname = [] then [Error ''Player name is required.''] else [])
      in if py_not (f_acs form) \<or> f_kills form = None \<or> f_deaths form = None
            \<or> f_assists form = None
         then (db, msgs @ [Error ''Please fill in all required fields.''])
         else (add_match (u_id user) pname (f_win_loss form) (f_map_name form) (f_agent form)
                 (f_current_rank form) (the (f_acs form)) (f_econ_rating form)
                 (the (f_kills form)) (the (f_deaths form)) (the (f_assists form)) db,
               msgs @ [Success ''Match details added successfully!'']))"

section \<open>The delete form\<close>

text \<open>\<^verbatim>\<open>str\<close> of an integer: its decimal digits, with a minus sign when negative.\<close>

definition digit_char :: "nat \<Rightarrow> char" where
  "digit_char n = ''0123456789'' ! (n mod 10)"

fun str_nat :: "nat \<Rightarrow> string" where
  "str_nat n = (if n < 10 then [digit_char n] else str_nat (n div 10) @ [digit_char n])"

definition str_int :: "int \<Rightarrow> string" where
  "str_int i = (if i < 0 then CHR ''-'' # str_nat (nat (- i)) else str_nat (nat i))"

text \<open>
  \<^verbatim>\<open>f"{row['player_name']} | {row['map_name']} | {row['agent']} | {row['current_rank']} | {row['kills']}/{row['deaths']}"\<close>
  The earlier version of the line, which put \<^verbatim>\<open>row['id']\<close> first, is commented out
  in the source.
\<close>

definition record_option :: "match_row \<Rightarrow> string" where
  "record_option row =
     player_name row @ '' | '' @ map_name row @ '' | '' @ agent row @ '' | '' @
     current_rank row @ '' | '' @ str_int (kills row) @ ''/'' @ str_int (deaths row)"

text \<open>\<^verbatim>\<open>s.split(sep)[0]\<close>: the text before the first occurrence of \<open>sep\<close>, all of \<open>s\<close> if there is none.\<close>

fun first_field :: "string \<Rightarrow> string \<Rightarrow> string" where
  "first_field sep [] = []"
| "first_field sep (c # s) = (if prefix sep (c # s) then [] else c # first_field sep s)"

text \<open>
  \<^verbatim>\<open>int(s)\<close>. On ASCII text: white space (tab, line feed, vertical tab, form feed,
  carriage return, space) is skipped at both ends, then comes an optional sign, then
  decimal digits, where single underscores may stand between two digits. Anything else
  raises \<^verbatim>\<open>ValueError\<close>, and so does a literal of more than 4300 digits (CPython's
  default limit). On text with a character outside ASCII the conversion also knows the
  decimal digits and the white space of the other scripts of Unicode; those tables belong
  to the interpreter, and what \<^verbatim>\<open>int\<close> returns on such text is the parameter
  \<open>unicode_int\<close>.
\<close>

definition is_ascii :: "char \<Rightarrow> bool" where
  "is_ascii c = (\<not> digit7 c)"

definition is_digit :: "char \<Rightarrow> bool" where
  "is_digit c = (c \<in> set ''0123456789'')"

definition py_isspace :: "char \<Rightarrow> bool" where
  "py_isspace c = (c \<in> {CHR 0x09, CHR 0x0A, CHR 0x0B, CHR 0x0C, CHR 0x0D, CHR 0x20})"

definition strip :: "string \<Rightarrow> string" where
  "strip s = rev (dropWhile py_isspace (rev (dropWhile py_isspace s)))"

fun int_digits :: "string \<Rightarrow> bool" where
  "int_digits [] = False"
| "int_digits [c] = is_digit c"
| "int_digits (c # d # s) =
     (is_digit c \<and> (if d = CHR ''_'' then int_digits s else int_digits (d # s)))"

definition digits_value :: "string \<Rightarrow> int" where
  "digits_value s = foldl (\<lambda>a c. 10 * a + (int (of_char c) - 48)) 0 (filter is_digit s)"

definition parse_digits :: "string \<Rightarrow> py_error + int" where
  "parse_digits s =
     (if int_digits s \<and> length (filter is_digit s) \<le> 4300 then Inr (digits_value s)
      else Inl ValueError)"

definition ascii_int :: "string \<Rightarrow> py_error + int" where
  "ascii_int s =
     (case strip s of
        [] \<Rightarrow> Inl ValueError
      | c # r \<Rightarrow>
          if c = CHR ''-'' then map_sum id uminus (parse_digits r)
          else if c = CHR ''+'' then parse_digits r
          else parse_digits (c # r))"

definition py_int :: "(string \<Rightarrow> py_error + int) \<Rightarrow> string \<Rightarrow> py_error + int" where
  "py_int unicode_int s = (if list_all is_ascii s then ascii_int s else unicode_int s)"

text \<open>
  \<^verbatim>\<open>match_data = fetch_matches_by_user(user["username"]) if user["role"] == "player"
               else fetch_all_matches()
  if match_data:
      df = pd.DataFrame(match_data)
      record_options = df.apply(lambda row: f"...", axis=1)
      record_to_delete = st.selectbox("Select Record to Delete", record_options)
      if st.form_submit_button("Delete Record"):
          record_id = int(record_to_delete.split(" | ")[0])
          delete_match(record_id, user)
          st.success("Record deleted successfully!")\<close>
  \<open>i\<close> is the position of the selected option. With no match data there is nothing
  to select and nothing happens; a position beyond the options cannot be selected and
  is treated alike. An exception of \<^verbatim>\<open>int\<close> ends the run before
  \<^verbatim>\<open>delete_match\<close> is called.
\<close>

definition delete_options :: "user_row \<Rightarrow> database \<Rightarrow> match_row list" where
  "delete_options user db =
     (if role user = ''player'' then fetch_matches_by_user db (username user)
      else fetch_all_matches db)"

definition delete_form_submit ::
  "(string \<Rightarrow> py_error + int) \<Rightarrow> user_row \<Rightarrow> database \<Rightarrow> nat \<Rightarrow>
   py_error + database \<times> shown list" where
  "delete_form_submit unicode_int user db i =
     (let match_data = delete_options user db in
      if match_data = [] \<or> length match_data \<le> i then Inr (db, [])
      else
        let record_to_delete = map record_option match_data ! i in
        case py_int unicode_int (first_field '' | '' record_to_delete) of
          Inl e \<Rightarrow> Inl e
        | Inr record_id \<Rightarrow>
            Inr (delete_match record_id user db, [Success ''Record deleted successfully!'']))"

section \<open>Aggregation and ranking\<close>

text \<open>
  A row of the aggregated frame. Its fields are the frame's columns
  \<^verbatim>\<open>player_name\<close>, \<^verbatim>\<open>avg_acs\<close>, \<^verbatim>\<open>avg_econ_rating\<close>, \<^verbatim>\<open>kills\<close>, \<^verbatim>\<open>deaths\<close>,
  \<^verbatim>\<open>assists\<close>, \<^verbatim>\<open>K/D Ratio\<close> and \<^verbatim>\<open>matches_played\<close>; the three sums and the mean
  K/D ratio carry the names the specification gives them. A frame is its column labels
  and its rows: \<^verbatim>\<open>pd.DataFrame()\<close> has neither.
\<close>

record agg_row =
  agg_player_name :: string
  avg_acs :: rat
  avg_econ_rating :: rat
  total_kills :: int
  total_deaths :: int
  total_assists :: int
  avg_kd_ratio :: rat
  matches_played :: int

record agg_frame =
  columns :: "string list"
  rows :: "agg_row list"

definition empty_frame :: agg_frame where
  "empty_frame = \<lparr>columns = [], rows = []\<rparr>"

definition frame_empty :: "agg_frame \<Rightarrow> bool" where
  "frame_empty df = (columns df = [] \<or> rows df = [])"

text \<open>
  \<^verbatim>\<open>df.groupby(key)\<close>: every row joins the group of its key, after the rows already
  there; the groups come out in increasing order of the key (\<^verbatim>\<open>sort=True\<close>, the
  default).
\<close>

fun group_insert :: "'k::linorder \<Rightarrow> 'v \<Rightarrow> ('k \<times> 'v list) list \<Rightarrow> ('k \<times> 'v list) list" where
  "group_insert k v [] = [(k, [v])]"
| "group_insert k v ((k', vs) # gs) =
     (if k = k' then (k', vs @ [v]) # gs
      else if k < k' then (k, [v]) # (k', vs) # gs
      else (k', vs) # group_insert k v gs)"

definition groupby :: "('v \<Rightarrow> 'k::linorder) \<Rightarrow> 'v list \<Rightarrow> ('k \<times> 'v list) list" where
  "groupby key df = foldl (\<lambda>gs v. group_insert (key v) v gs) [] df"

subsection \<open>Double-precision arithmetic\<close>

text \<open>
  The columns \<^verbatim>\<open>acs\<close>, \<^verbatim>\<open>econ_rating\<close> and \<^verbatim>\<open>K/D Ratio\<close> are aggregated as
  \<^verbatim>\<open>float64\<close>. A finite double is the rational number it denotes, and an operation on
  doubles is the exact operation followed by \<open>fl\<close>, which rounds a rational to the
  nearest number with a significand of 53 bits, a tie going to the even significand. The
  range of the exponent is not bounded here: infinities, NaN and the loss of precision
  below the smallest normal double are not part of the model (see \<open>within_range\<close>
  below).
  \<open>ilog2 x\<close> is the exponent of the power of two at or below a positive \<open>x\<close>.
\<close>

definition round_half_even :: "rat \<Rightarrow> int" where
  "round_half_even x =
     (let f = \<lfloor>x\<rfloor>; d = x - of_int f
      in if d < 1 / 2 then f else if 1 / 2 < d then f + 1 else if even f then f else f + 1)"

definition ilog2 :: "rat \<Rightarrow> int" where
  "ilog2 x =
     (let d = bitlen (fst (quotient_of x)) - bitlen (snd (quotient_of x))
      in if 2 powi d \<le> x then d else d - 1)"

definition fl :: "rat \<Rightarrow> rat" where
  "fl x =
     (if x = 0 then 0
      else let e = ilog2 \<bar>x\<bar> - 52 in of_int (round_half_even (x / 2 powi e)) * 2 powi e)"

text \<open>
  The aggregation \<^verbatim>\<open>"mean"\<close> of a group: pandas adds the values of the group in
  their order with a compensated (Kahan) sum and divides by their number.
  \<^verbatim>\<open>y = val - compensation
  t = sumx + y
  compensation = t - sumx - y
  sumx = t
  ...
  out = sumx / count\<close>
\<close>

fun kahan :: "rat \<times> rat \<Rightarrow> rat list \<Rightarrow> rat \<times> rat" where
  "kahan (sumx, compensation) [] = (sumx, compensation)"
| "kahan (sumx, compensation) (val # vals) =
     (let y = fl (val - compensation); t = fl (sumx + y)
      in kahan (t, fl (fl (t - sumx) - y)) vals)"

definition group_mean :: "rat list \<Rightarrow> rat" where
  "group_mean vals = fl (fst (kahan (0, 0) vals) / of_nat (length vals))"

text \<open>
  \<^verbatim>\<open>.round(2)\<close> on a float column is NumPy's rounding: the value is multiplied by
  100, rounded to the nearest integer with a tie going to the even one, and divided by
  100, each step on doubles.
\<close>

definition round2 :: "rat \<Rightarrow> rat" where
  "round2 x = fl (of_int (round_half_even (fl (x * 100))) / 100)"

text \<open>
  The specification's words for the same step, ``rounded to 2 decimal places'': the
  exact value rounded to the nearest multiple of 1/100.
\<close>

definition spec_round2 :: "rat \<Rightarrow> rat" where
  "spec_round2 x = of_int (round_half_even (x * 100)) / 100"

text \<open>
  \<^verbatim>\<open>def aggregate_player_stats(data):
      if not data:
          return pd.DataFrame()
      df = pd.DataFrame(data)
      df["K/D Ratio"] = df.apply(lambda row: calculate_kd_ratio(row["kills"], row["deaths"]), axis=1)
      aggregated_df = (
          df.groupby("player_name")
          .agg({"acs": "mean", "econ_rating": "mean", "kills": "sum", "deaths": "sum",
                "assists": "sum", "K/D Ratio": "mean", "win_loss": "count"})
          .reset_index()
          .rename(columns={"win_loss": "matches_played", "acs": "avg_acs",
                           "econ_rating": "avg_econ_rating"})
      )
      return aggregated_df.round(2)\<close>
  A row of \<open>df\<close> is the match row paired with its K/D ratio as the column stores it,
  a double. The means are taken over doubles: of the integers of \<^verbatim>\<open>acs\<close> converted,
  of \<^verbatim>\<open>econ_rating\<close> and of the K/D ratios. \<^verbatim>\<open>win_loss\<close> is never null, so its
  count is the number of rows of the group. Rounding touches the float columns only.
\<close>

definition agg_group :: "string \<times> (match_row \<times> rat) list \<Rightarrow> agg_row" where
  "agg_group g =
     (case g of (name, rs) \<Rightarrow>
        \<lparr>agg_player_name = name,
         avg_acs = group_mean (map (\<lambda>r. fl (of_int (acs (fst r)))) rs),
         avg_econ_rating = group_mean (map (\<lambda>r. fl (econ_rating (fst r))) rs),
         total_kills = sum_list (map (\<lambda>r. kills (fst r)) rs),
         total_deaths = sum_list (map (\<lambda>r. deaths (fst r)) rs),
         total_assists = sum_list (map (\<lambda>r. assists (fst r)) rs),
         avg_kd_ratio = group_mean (map snd rs),
         matches_played = int (length rs)\<rparr>)"

definition round_row :: "agg_row \<Rightarrow> agg_row" where
  "round_row r =
     r\<lparr>avg_acs := round2 (avg_acs r), avg_econ_rating := round2 (avg_econ_rating r),
       avg_kd_ratio := round2 (avg_kd_ratio r)\<rparr>"

definition aggregate_player_stats :: "match_row list \<Rightarrow> agg_frame" where
  "aggregate_player_stats data =
     (if data = [] then empty_frame
      else
        let df = map (\<lambda>row. (row, fl (calculate_kd_ratio (kills row) (deaths row)))) data;
            aggregated_df = map agg_group (groupby (\<lambda>r. player_name (fst r)) df)
        in \<lparr>columns = [''player_name'', ''avg_acs'', ''avg_econ_rating'', ''kills'', ''deaths'',
                       ''assists'', ''K/D Ratio'', ''matches_played''],
            rows = map round_row aggregated_df\<rparr>)"

text \<open>
  The integer columns of the frame are 64-bit and its float columns are doubles, while
  the integers and the rationals of this theory are unbounded. \<open>within_range\<close> holds of
  the records whose columns can be added up inside those types: no sum of integers wraps
  around and no sum of econ ratings leaves the finite doubles. The definitions above are
  the code on such records.
\<close>

definition within_range :: "match_row list \<Rightarrow> bool" where
  "within_range data =
     (sum_list (map (\<lambda>r. \<bar>acs r\<bar>) data) < 2 ^ 63
      \<and> sum_list (map (\<lambda>r. \<bar>kills r\<bar>) data) < 2 ^ 63
      \<and> sum_list (map (\<lambda>r. \<bar>deaths r\<bar>) data) < 2 ^ 63
      \<and> sum_list (map (\<lambda>r. \<bar>assists r\<bar>) data) < 2 ^ 63
      \<and> sum_list (map (\<lambda>r. \<bar>econ_rating r\<bar>) data) < 2 ^ 1000)"

text \<open>
  \<^verbatim>\<open>def rank_players(aggregated_df):
      ranked_df = aggregated_df.sort_values(by="avg_acs", ascending=False).reset_index(drop=True)
      ranked_df.index += 1
      return ranked_df\<close>
  \<^verbatim>\<open>sort_values\<close> raises \<^verbatim>\<open>KeyError\<close> when the frame has no column of that label. It is
  called without \<^verbatim>\<open>kind\<close>, so the rows are ordered by the library's default sorting
  algorithm, which is no part of the repository: the ordering routine is the parameter
  \<open>sort_values\<close>, given the column and the rows and returning the rows in descending
  order of the column. The result lists each row with its index label.
\<close>

definition rank_players ::
  "((agg_row \<Rightarrow> rat) \<Rightarrow> agg_row list \<Rightarrow> agg_row list) \<Rightarrow> agg_frame \<Rightarrow>
   py_error + (nat \<times> agg_row) list" where
  "rank_players sort_values aggregated_df =
     (if ''avg_acs'' \<notin> set (columns aggregated_df) then Inl (KeyError ''avg_acs'')
      else
        let ranked_df = enumerate 0 (sort_values avg_acs (rows aggregated_df))
        in Inr (map (\<lambda>(i, r). (i + 1, r)) ranked_df))"

text \<open>
  An ordering routine that sorts in descending order and keeps rows with equal keys in
  their input order.
\<close>

definition stable_sort_values :: "('r \<Rightarrow> rat) \<Rightarrow> 'r list \<Rightarrow> 'r list" where
  "stable_sort_values by rs = sort_key (\<lambda>r. - by r) rs"

text \<open>
  \<^verbatim>\<open>all_match_data = fetch_all_matches()
  ...
  if all_match_data:
      aggregated_df = aggregate_player_stats(all_match_data)
      if not aggregated_df.empty:
          st.subheader("Leaderboard: Ranked Players by Avg ACS")
          ranked_df = rank_players(aggregated_df)
          st.dataframe(ranked_df, width='stretch')
  else:
      st.info("No leaderboard data available.")\<close>
  The result is the table shown, if any, and the messages.
\<close>

definition leaderboard ::
  "((agg_row \<Rightarrow> rat) \<Rightarrow> agg_row list \<Rightarrow> agg_row list) \<Rightarrow> database \<Rightarrow>
   py_error + (nat \<times> agg_row) list option \<times> shown list" where
  "leaderboard sort_values db =
     (let all_match_data = fetch_all_matches db in
      if all_match_data \<noteq> [] then
        let aggregated_df = aggregate_player_stats all_match_data in
        if \<not> frame_empty aggregated_df then
          (case rank_players sort_values aggregated_df of
             Inl e \<Rightarrow> Inl e
           | Inr ranked_df \<Rightarrow> Inr (Some ranked_df, []))
        else Inr (None, [])
      else Inr (None, [Info ''No leaderboard data available.'']))"

section \<open>Sample data\<close>

definition sample_match :: "int \<Rightarrow> int \<Rightarrow> string \<Rightarrow> int \<Rightarrow> int \<Rightarrow> int \<Rightarrow> match_row" where
  "sample_match i owner name a k d =
     \<lparr>m_id = i, user_id = owner, player_name = name, win_loss = ''Win'', map_name = ''Bind'',
      agent = ''Jett'', current_rank = ''Gold 1'', acs = a, econ_rating = 50, kills = k,
      deaths = d, assists = 3\<rparr>"

definition alice :: user_row where
  "alice = \<lparr>u_id = 1, username = ''alice'', password_hash = ''#wonderland'', role = ''player''\<rparr>"

definition bob :: user_row where
  "bob = \<lparr>u_id = 2, username = ''bob'', password_hash = ''#builder'', role = ''player''\<rparr>"

definition ruth :: user_row where
  "ruth = \<lparr>u_id = 3, username = ''ruth'', password_hash = ''#less'', role = ''admin''\<rparr>"

definition sample_db :: database where
  "sample_db =
     \<lparr>users = [alice, bob, ruth],
      matches = [sample_match 1 1 ''alice'' 200 10 5, sample_match 2 2 ''bob'' 250 12 6,
                 sample_match 3 1 ''alice'' 300 20 0],
      users_seq = 4, matches_seq = 4\<rparr>"

definition toy_checkpw :: "string \<Rightarrow> string \<Rightarrow> bool" where
  "toy_checkpw password hash = (hash = CHR ''#'' # password)"

definition toy_hashpw :: "string \<Rightarrow> string" where
  "toy_hashpw password = CHR ''#'' # password"

definition long_password :: string where
  "long_password = replicate 73 (CHR ''x'')"

definition sample_form :: "string \<Rightarrow> int option \<Rightarrow> match_form" where
  "sample_form name a =
     \<lparr>f_player_name = name, f_win_loss = ''Loss'', f_map_name = ''Split'', f_agent = ''Sova'',
      f_current_rank = ''Silver 2'', f_acs = a, f_econ_rating = 61, f_kills = Some 14,
      f_deaths = Some 9, f_assists = Some 0\<rparr>"

definition signed_db :: database where
  "signed_db =
     \<lparr>users = [alice, bob, ruth],
      matches = [sample_match 1 3 ''+2'' 200 10 5, sample_match 2 3 ''carol'' 250 12 6],
      users_seq = 4, matches_seq = 3\<rparr>"

definition sample_records :: "match_row list" where
  "sample_records =
     [sample_match 1 1 ''alice'' 200 10 3, sample_match 2 2 ''bob'' 251 23 40,
      sample_match 3 1 ''alice'' 301 20 0]"

section \<open>Properties of the match helpers\<close>

lemma delete_where_filter: "delete_where p rs = filter (\<lambda>r. \<not> p r) rs"
  by (induction rs) simp_all

lemma delete_where_none: "\<forall>r\<in>set rs. \<not> p r \<Longrightarrow> delete_where p rs = rs"
  by (induction rs) simp_all

lemma delete_where_mset: "mset rs = mset (delete_where p rs) + mset (filter p rs)"
  by (induction rs) simp_all

lemma distinct_id_other_owner:
  assumes "distinct (map m_id rs)" and "r \<in> set rs" and "m_id r = i" and "user_id r \<noteq> u"
  shows "\<forall>q\<in>set rs. \<not> (m_id q = i \<and> user_id q = u)"
proof
  fix q assume q: "q \<in> set rs"
  show "\<not> (m_id q = i \<and> user_id q = u)"
  proof
    assume h: "m_id q = i \<and> user_id q = u"
    from assms(1) have "inj_on m_id (set rs)" by (simp add: distinct_map)
    with q assms(2,3) h have "q = r" by (auto dest: inj_onD)
    with h assms(4) show False by simp
  qed
qed

text \<open>
  C4. For all integers \<open>kills\<close> and \<open>deaths\<close> (in particular the non-negative ones a
  match row holds), the K/D ratio is \<open>kills\<close> when \<open>deaths = 0\<close>, so it is 0 when
  both are 0, and it is exactly the quotient \<open>kills / deaths\<close> when \<open>deaths > 0\<close>.
\<close>

theorem calculate_kd_ratio_convention:
  "calculate_kd_ratio k 0 = of_int k
   \<and> calculate_kd_ratio 0 0 = 0
   \<and> (0 \<le> k \<and> 0 < d \<longrightarrow> calculate_kd_ratio k d = of_int k / of_int d)"
  by (simp add: calculate_kd_ratio_def)

theorem calculate_kd_ratio_convention_witness:
  "calculate_kd_ratio 20 0 = 20 \<and> calculate_kd_ratio 0 0 = 0
   \<and> (0::int) \<le> 10 \<and> (0::int) < 4 \<and> calculate_kd_ratio 10 4 = 5 / 2"
  using calculate_kd_ratio_convention [of 20 4] calculate_kd_ratio_convention [of 10 4]
  by simp

text \<open>
  C1. A player's \<open>delete_match\<close> removes exactly the rows whose id is the record id and
  whose \<open>user_id\<close> is the acting user's id: every other row stays, in its place, and
  nothing else of the database changes. When no such row exists the database is
  returned unchanged (no error); with unique ids this is the case whenever the record
  belongs to another user. An admin's \<open>delete_match\<close> removes the rows with the record
  id, whoever owns them.
\<close>

theorem delete_match_frame:
  "(role user = ''player'' \<longrightarrow>
      matches (delete_match record_id user db) =
        filter (\<lambda>r. \<not> (m_id r = record_id \<and> user_id r = u_id user)) (matches db)
      \<and> mset (matches db) =
          mset (matches (delete_match record_id user db)) +
          mset (filter (\<lambda>r. m_id r = record_id \<and> user_id r = u_id user) (matches db))
      \<and> ((\<forall>r\<in>set (matches db). \<not> (m_id r = record_id \<and> user_id r = u_id user)) \<longrightarrow>
           delete_match record_id user db = db)
      \<and> (distinct (map m_id (matches db)) \<and>
           (\<exists>r\<in>set (matches db). m_id r = record_id \<and> user_id r \<noteq> u_id user) \<longrightarrow>
           delete_match record_id user db = db))
   \<and> (role user = ''admin'' \<longrightarrow>
      matches (delete_match record_id user db) =
        filter (\<lambda>r. m_id r \<noteq> record_id) (matches db)
      \<and> mset (matches db) =
          mset (matches (delete_match record_id user db)) +
          mset (filter (\<lambda>r. m_id r = record_id) (matches db)))
   \<and> users (delete_match record_id user db) = users db
   \<and> users_seq (delete_match record_id user db) = users_seq db
   \<and> matches_seq (delete_match record_id user db) = matches_seq db"
proof -
  let ?own = "\<lambda>r. m_id r = record_id \<and> user_id r = u_id user"
  let ?db' = "delete_match record_id user db"
  have player: "role user = ''player'' \<longrightarrow>
      matches ?db' = filter (\<lambda>r. \<not> ?own r) (matches db)
      \<and> mset (matches db) = mset (matches ?db') + mset (filter ?own (matches db))
      \<and> ((\<forall>r\<in>set (matches db). \<not> ?own r) \<longrightarrow> ?db' = db)
      \<and> (distinct (map m_id (matches db)) \<and>
           (\<exists>r\<in>set (matches db). m_id r = record_id \<and> user_id r \<noteq> u_id user) \<longrightarrow>
           ?db' = db)"
  proof
    assume p: "role user = ''player''"
    have none: "?db' = db" if "\<forall>r\<in>set (matches db). \<not> ?own r"
      using that p by (simp add: delete_match_def delete_where_none)
    have other: "?db' = db"
      if "distinct (map m_id (matches db)) \<and>
          (\<exists>r\<in>set (matches db). m_id r = record_id \<and> user_id r \<noteq> u_id user)"
    proof -
      from that obtain r where d: "distinct (map m_id (matches db))"
        and r: "r \<in> set (matches db)" "m_id r = record_id" "user_id r \<noteq> u_id user"
        by blast
      from d r have "\<forall>q\<in>set (matches db). \<not> ?own q"
        by (rule distinct_id_other_owner)
      then show ?thesis by (rule none)
    qed
    have flt: "matches ?db' = filter (\<lambda>r. \<not> ?own r) (matches db)"
      using p by (simp add: delete_match_def delete_where_filter)
    have ms: "mset (matches db) = mset (matches ?db') + mset (filter ?own (matches db))"
      using p delete_where_mset [of "matches db" ?own] by (simp add: delete_match_def)
    from flt ms none other
    show "matches ?db' = filter (\<lambda>r. \<not> ?own r) (matches db)
      \<and> mset (matches db) = mset (matches ?db') + mset (filter ?own (matches db))
      \<and> ((\<forall>r\<in>set (matches db). \<not> ?own r) \<longrightarrow> ?db' = db)
      \<and> (distinct (map m_id (matches db)) \<and>
           (\<exists>r\<in>set (matches db). m_id r = record_id \<and> user_id r \<noteq> u_id user) \<longrightarrow>
           ?db' = db)"
      by (intro conjI impI)
  qed
  have admin: "role user = ''admin'' \<longrightarrow>
      matches ?db' = filter (\<lambda>r. m_id r \<noteq> record_id) (matches db)
      \<and> mset (matches db) =
          mset (matches ?db') + mset (filter (\<lambda>r. m_id r = record_id) (matches db))"
  proof
    assume a: "role user = ''admin''"
    have flt: "matches ?db' = filter (\<lambda>r. m_id r \<noteq> record_id) (matches db)"
      using a by (simp add: delete_match_def delete_where_filter)
    have ms: "mset (matches db) =
        mset (matches ?db') + mset (filter (\<lambda>r. m_id r = record_id) (matches db))"
      using a delete_where_mset [of "matches db" "\<lambda>r. m_id r = record_id"]
      by (simp add: delete_match_def)
    from flt ms
    show "matches ?db' = filter (\<lambda>r. m_id r \<noteq> record_id) (matches db)
      \<and> mset (matches db) =
          mset (matches ?db') + mset (filter (\<lambda>r. m_id r = record_id) (matches db))"
      by (rule conjI)
  qed
  have frame: "users ?db' = users db \<and> users_seq ?db' = users_seq db
      \<and> matches_seq ?db' = matches_seq db"
    by (simp add: delete_match_def)
  show ?thesis
    by (rule conjI [OF player conjI [OF admin frame]])
qed

theorem delete_match_frame_witness:
  "role alice = ''player''
   \<and> matches (delete_match 3 alice sample_db) =
       [sample_match 1 1 ''alice'' 200 10 5, sample_match 2 2 ''bob'' 250 12 6]
   \<and> distinct (map m_id (matches sample_db))
   \<and> delete_match 2 alice sample_db = sample_db
   \<and> delete_match 7 alice sample_db = sample_db
   \<and> role ruth = ''admin''
   \<and> matches (delete_match 2 ruth sample_db) =
       [sample_match 1 1 ''alice'' 200 10 5, sample_match 3 1 ''alice'' 300 20 0]"
proof -
  have p: "role alice = ''player''" and a: "role ruth = ''admin''"
    by (simp_all add: alice_def ruth_def)
  have ms: "matches sample_db = [sample_match 1 1 ''alice'' 200 10 5, sample_match 2 2 ''bob'' 250 12 6,
                 sample_match 3 1 ''alice'' 300 20 0]"
    by (simp add: sample_db_def)
  have d: "distinct (map m_id (matches sample_db))"
    by (simp add: ms sample_match_def)
  have 1: "matches (delete_match 3 alice sample_db) =
       [sample_match 1 1 ''alice'' 200 10 5, sample_match 2 2 ''bob'' 250 12 6]"
    using delete_match_frame [of alice 3 sample_db, THEN conjunct1, rule_format, OF p, THEN conjunct1]
    by (simp add: ms sample_match_def alice_def)
  have e: "\<exists>r\<in>set (matches sample_db). m_id r = 2 \<and> user_id r \<noteq> u_id alice"
    by (simp add: ms sample_match_def alice_def)
  have 2: "delete_match 2 alice sample_db = sample_db"
    using delete_match_frame [of alice 2 sample_db, THEN conjunct1, rule_format, OF p] d e
    by blast
  have n: "\<forall>r\<in>set (matches sample_db). \<not> (m_id r = 7 \<and> user_id r = u_id alice)"
    by (simp add: ms sample_match_def)
  have 3: "delete_match 7 alice sample_db = sample_db"
    using delete_match_frame [of alice 7 sample_db, THEN conjunct1, rule_format, OF p] n
    by blast
  have 4: "matches (delete_match 2 ruth sample_db) =
       [sample_match 1 1 ''alice'' 200 10 5, sample_match 3 1 ''alice'' 300 20 0]"
    using delete_match_frame [of ruth 2 sample_db, THEN conjunct2, THEN conjunct1, rule_format, OF a, THEN conjunct1]
    by (simp add: ms sample_match_def)
  from p 1 d 2 3 a 4 show ?thesis by (intro conjI)
qed

section \<open>Properties of the auth helpers\<close>

lemma get_user_None_iff: "get_user db name = None \<longleftrightarrow> name \<notin> username ` set (users db)"
  by (auto simp: get_user_def find_None_iff)

lemma get_user_Some_username: "get_user db name = Some u \<Longrightarrow> username u = name \<and> u \<in> set (users db)"
  by (auto simp: get_user_def find_Some_iff)

lemma get_user_append_new:
  "name \<notin> username ` set us \<Longrightarrow> username u = name \<Longrightarrow>
   get_user (db\<lparr>users := us @ [u], users_seq := n\<rparr>) name = Some u"
  by (induction us) (auto simp: get_user_def)

lemma login_fails_alike_within_72_bytes:
  assumes "get_user db u1 = Some usr" and "\<not> checkpw p1 (password_hash usr)"
    and "length p1 \<le> 72" and "u2 \<notin> username ` set (users db)"
  shows "login_button checkpw db u1 p1 = Inr (None, [Error ''Invalid username or password.''])
    \<and> login_button checkpw db u2 p2 = Inr (None, [Error ''Invalid username or password.''])"
proof -
  from assms(4) have n: "get_user db u2 = None" by (simp add: get_user_None_iff)
  from assms(1,2,3) have 1: "login checkpw db u1 p1 = Inr None"
    by (simp add: login_def verify_password_def)
  from n have 2: "login checkpw db u2 p2 = Inr None" by (simp add: login_def)
  from 1 2 show ?thesis by (simp add: login_button_def)
qed

text \<open>
  C7, at an input where the two failures differ. The store holds \<open>alice\<close> and no
  \<open>carol\<close>. With a wrong password of 73 bytes, the login of \<open>alice\<close> ends in the
  \<open>ValueError\<close> of \<open>bcrypt.checkpw\<close>, which nothing catches, while the login of
  \<open>carol\<close> shows the message for invalid credentials: the outcome tells whether the
  username exists.
\<close>

theorem long_password_reveals_user:
  "get_user sample_db ''alice'' = Some alice
   \<and> get_user sample_db ''carol'' = None
   \<and> length long_password = 73
   \<and> login_button toy_checkpw sample_db ''alice'' long_password = Inl ValueError
   \<and> login_button toy_checkpw sample_db ''carol'' long_password =
       Inr (None, [Error ''Invalid username or password.''])"
proof -
  have g: "get_user sample_db ''alice'' = Some alice"
    by (simp add: get_user_def sample_db_def alice_def)
  have n: "get_user sample_db ''carol'' = None"
    by (simp add: get_user_def sample_db_def alice_def bob_def ruth_def)
  have l: "length long_password = 73" by (simp add: long_password_def)
  have 1: "login_button toy_checkpw sample_db ''alice'' long_password = Inl ValueError"
    by (simp add: login_button_def login_def g verify_password_def l)
  have 2: "login_button toy_checkpw sample_db ''carol'' long_password =
       Inr (None, [Error ''Invalid username or password.''])"
    by (simp add: login_button_def login_def n)
  from g n l 1 2 show ?thesis by (intro conjI)
qed

text \<open>
  C8, amended. Registration fails with the password-mismatch message whenever the
  password and its confirmation differ, whether or not the username exists, and leaves
  the database as it was. With equal passwords, a username that is already stored fails
  with the username-taken message and leaves the database as it was (no second row).
  Otherwise, when the password is at most 72 bytes long, one user row is appended, with
  the chosen username, the hash of the password and role \<open>player\<close>, and it is the row
  a lookup of that username returns.
\<close>

theorem register_button_cases:
  "(new_pass \<noteq> confirm_pass \<longrightarrow>
      register_button hashpw db new_user new_pass confirm_pass =
        Inr (db, [Error ''Passwords do not match.'']))
   \<and> (new_pass = confirm_pass \<and> new_user \<in> username ` set (users db) \<longrightarrow>
      register_button hashpw db new_user new_pass confirm_pass =
        Inr (db, [Error ''Username already exists.'']))
   \<and> (new_pass = confirm_pass \<and> new_user \<notin> username ` set (users db)
        \<and> length new_pass \<le> 72 \<longrightarrow>
      (\<exists>db'. register_button hashpw db new_user new_pass confirm_pass =
          Inr (db', [Success ''Registration successful! You can now log in.''])
        \<and> users db' = users db @
            [\<lparr>u_id = users_seq db, username = new_user, password_hash = hashpw new_pass,
              role = ''player''\<rparr>]
        \<and> matches db' = matches db
        \<and> get_user db' new_user =
            Some \<lparr>u_id = users_seq db, username = new_user, password_hash = hashpw new_pass,
                  role = ''player''\<rparr>))"
proof (intro conjI impI)
  assume "new_pass \<noteq> confirm_pass"
  then show "register_button hashpw db new_user new_pass confirm_pass =
        Inr (db, [Error ''Passwords do not match.''])"
    by (simp add: register_button_def)
next
  assume "new_pass = confirm_pass \<and> new_user \<in> username ` set (users db)"
  then have "new_pass = confirm_pass" and "get_user db new_user \<noteq> None"
    by (simp_all add: get_user_None_iff)
  then show "register_button hashpw db new_user new_pass confirm_pass =
        Inr (db, [Error ''Username already exists.''])"
    by (simp add: register_button_def)
next
  let ?u = "\<lparr>u_id = users_seq db, username = new_user, password_hash = hashpw new_pass,
              role = ''player''\<rparr>"
  let ?db' = "db\<lparr>users := users db @ [?u], users_seq := users_seq db + 1\<rparr>"
  assume h: "new_pass = confirm_pass \<and> new_user \<notin> username ` set (users db)
      \<and> length new_pass \<le> 72"
  then have n: "get_user db new_user = None" by (simp add: get_user_None_iff)
  from h have f: "new_user \<notin> username ` set (users db)" and l: "\<not> 72 < length new_pass"
    by auto
  from f l have r: "register_user hashpw db new_user new_pass = Inr (?db', [], True)"
    by (simp add: register_user_def insert_user_def)
  from h n r have b: "register_button hashpw db new_user new_pass confirm_pass =
      Inr (?db', [Success ''Registration successful! You can now log in.''])"
    by (simp add: register_button_def)
  from h have g: "get_user ?db' new_user = Some ?u"
    by (simp add: get_user_append_new)
  from b g show "\<exists>db'. register_button hashpw db new_user new_pass confirm_pass =
          Inr (db', [Success ''Registration successful! You can now log in.''])
        \<and> users db' = users db @ [?u]
        \<and> matches db' = matches db
        \<and> get_user db' new_user = Some ?u"
    by (intro exI [of _ ?db']) simp
qed

theorem register_button_cases_witness:
  "''a'' \<noteq> ''b''
   \<and> register_button toy_hashpw sample_db ''alice'' ''a'' ''b'' =
       Inr (sample_db, [Error ''Passwords do not match.''])
   \<and> ''alice'' \<in> username ` set (users sample_db)
   \<and> register_button toy_hashpw sample_db ''alice'' ''a'' ''a'' =
       Inr (sample_db, [Error ''Username already exists.''])
   \<and> ''carol'' \<notin> username ` set (users sample_db)
   \<and> length ''pw'' \<le> 72
   \<and> (\<exists>db'. register_button toy_hashpw sample_db ''carol'' ''pw'' ''pw'' =
          Inr (db', [Success ''Registration successful! You can now log in.''])
        \<and> users db' =
            [alice, bob, ruth,
             \<lparr>u_id = 4, username = ''carol'', password_hash = ''#pw'', role = ''player''\<rparr>])"
proof -
  have d: "''a'' \<noteq> ''b''" by simp
  have e: "''alice'' \<in> username ` set (users sample_db)"
    by (simp add: sample_db_def alice_def)
  have n: "''carol'' \<notin> username ` set (users sample_db)"
    by (simp add: sample_db_def alice_def bob_def ruth_def)
  have l: "length ''pw'' \<le> 72" by simp
  note t1 = register_button_cases [of "''a''" "''b''" toy_hashpw sample_db "''alice''",
      THEN conjunct1, THEN mp, OF d]
  note t2 = register_button_cases [of "''a''" "''a''" toy_hashpw sample_db "''alice''",
      THEN conjunct2, THEN conjunct1, THEN mp, OF conjI [OF refl e]]
  note t3 = register_button_cases [of "''pw''" "''pw''" toy_hashpw sample_db "''carol''",
      THEN conjunct2, THEN conjunct2, THEN mp, OF conjI [OF refl conjI [OF n l]]]
  from t3 have 3: "\<exists>db'. register_button toy_hashpw sample_db ''carol'' ''pw'' ''pw'' =
          Inr (db', [Success ''Registration successful! You can now log in.''])
        \<and> users db' =
            [alice, bob, ruth,
             \<lparr>u_id = 4, username = ''carol'', password_hash = ''#pw'', role = ''player''\<rparr>]"
    by (auto simp: sample_db_def toy_hashpw_def)
  from d t1 e t2 n l 3 show ?thesis by (intro conjI)
qed

text \<open>
  C8 as stated fails: with equal passwords of 73 bytes and a username that is free,
  \<open>bcrypt.hashpw\<close> raises before anything is written, so no user is persisted.
\<close>

theorem long_password_is_not_registered:
  "''carol'' \<notin> username ` set (users sample_db)
   \<and> length long_password = 73
   \<and> register_button toy_hashpw sample_db ''carol'' long_password long_password =
       Inl ValueError"
proof -
  have n: "''carol'' \<notin> username ` set (users sample_db)"
    by (simp add: sample_db_def alice_def bob_def ruth_def)
  then have g: "get_user sample_db ''carol'' = None" by (simp add: get_user_None_iff)
  have l: "length long_password = 73" by (simp add: long_password_def)
  have r: "register_button toy_hashpw sample_db ''carol'' long_password long_password =
       Inl ValueError"
    by (simp add: register_button_def g register_user_def l)
  from n l r show ?thesis by (intro conjI)
qed

section \<open>Properties of the match form\<close>

text \<open>
  C5, at an input where the handler does not do what the claim says. An admin submits the
  form with an empty player name and an ACS of 200: the message that the player name is
  required is shown, and the row is inserted all the same, with the empty name.
\<close>

theorem empty_name_is_inserted:
  "match_form_submit ruth (sample_form '''' (Some 200)) sample_db =
     (sample_db\<lparr>matches := matches sample_db @
         [\<lparr>m_id = 4, user_id = 3, player_name = '''', win_loss = ''Loss'', map_name = ''Split'',
           agent = ''Sova'', current_rank = ''Silver 2'', acs = 200, econ_rating = 61,
           kills = 14, deaths = 9, assists = 0\<rparr>],
        matches_seq := 5\<rparr>,
      [Error ''Player name is required.'', Success ''Match details added successfully!''])"
  by (simp add: match_form_submit_def submitted_name_def sample_form_def ruth_def add_match_def
      sample_db_def py_not_def Let_def)

text \<open>
  C6 as stated fails: a submission with a player name and every numeric input present,
  whose ACS is 0, is rejected with the required-fields message and nothing is inserted.
\<close>

theorem acs_zero_is_rejected:
  "submitted_name ruth (sample_form ''carol'' (Some 0)) = ''carol''
   \<and> f_acs (sample_form ''carol'' (Some 0)) = Some 0
   \<and> f_kills (sample_form ''carol'' (Some 0)) = Some 14
   \<and> f_deaths (sample_form ''carol'' (Some 0)) = Some 9
   \<and> f_assists (sample_form ''carol'' (Some 0)) = Some 0
   \<and> match_form_submit ruth (sample_form ''carol'' (Some 0)) sample_db =
       (sample_db, [Error ''Please fill in all required fields.''])"
  by (simp add: match_form_submit_def submitted_name_def sample_form_def ruth_def py_not_def Let_def)

text \<open>
  C6, amended. A submission whose player name is not empty, whose kills, deaths and
  assists are present and whose ACS is present and not 0 shows no error and appends
  exactly the submitted row. A submission whose ACS is 0 changes nothing and ends with
  the required-fields message. An error message is shown exactly when the player name is
  empty, a numeric input is absent or the ACS is 0. \<open>add_match\<close> itself always adds
  one row.
\<close>

theorem match_form_submit_cases:
  "(submitted_name user form \<noteq> [] \<and> f_acs form = Some a \<and> a \<noteq> 0 \<and> f_kills form = Some k
      \<and> f_deaths form = Some d \<and> f_assists form = Some s \<longrightarrow>
      match_form_submit user form db =
        (add_match (u_id user) (submitted_name user form) (f_win_loss form) (f_map_name form)
           (f_agent form) (f_current_rank form) a (f_econ_rating form) k d s db,
         [Success ''Match details added successfully!''])
      \<and> matches (fst (match_form_submit user form db)) = matches db @
          [\<lparr>m_id = matches_seq db, user_id = u_id user, player_name = submitted_name user form,
            win_loss = f_win_loss form, map_name = f_map_name form, agent = f_agent form,
            current_rank = f_current_rank form, acs = a, econ_rating = f_econ_rating form,
            kills = k, deaths = d, assists = s\<rparr>])
   \<and> (f_acs form = Some 0 \<longrightarrow>
        fst (match_form_submit user form db) = db
        \<and> last (snd (match_form_submit user form db)) = Error ''Please fill in all required fields.'')
   \<and> ((\<exists>e. Error e \<in> set (snd (match_form_submit user form db))) \<longleftrightarrow>
        submitted_name user form = [] \<or> f_acs form = None \<or> f_acs form = Some 0
        \<or> f_kills form = None \<or> f_deaths form = None \<or> f_assists form = None)
   \<and> length (matches (add_match uid pname wl mp ag cr a' er k' d' s' db)) =
        Suc (length (matches db))"
proof (intro conjI impI)
  assume h: "submitted_name user form \<noteq> [] \<and> f_acs form = Some a \<and> a \<noteq> 0 \<and> f_kills form = Some k
      \<and> f_deaths form = Some d \<and> f_assists form = Some s"
  then show m: "match_form_submit user form db =
        (add_match (u_id user) (submitted_name user form) (f_win_loss form) (f_map_name form)
           (f_agent form) (f_current_rank form) a (f_econ_rating form) k d s db,
         [Success ''Match details added successfully!''])"
    by (simp add: match_form_submit_def py_not_def Let_def)
  show "matches (fst (match_form_submit user form db)) = matches db @
          [\<lparr>m_id = matches_seq db, user_id = u_id user, player_name = submitted_name user form,
            win_loss = f_win_loss form, map_name = f_map_name form, agent = f_agent form,
            current_rank = f_current_rank form, acs = a, econ_rating = f_econ_rating form,
            kills = k, deaths = d, assists = s\<rparr>]"
    by (simp add: m add_match_def)
next
  assume "f_acs form = Some 0"
  then show "fst (match_form_submit user form db) = db"
    by (simp add: match_form_submit_def py_not_def Let_def)
next
  assume "f_acs form = Some 0"
  then show "last (snd (match_form_submit user form db)) = Error ''Please fill in all required fields.''"
    by (simp add: match_form_submit_def py_not_def Let_def)
next
  show "(\<exists>e. Error e \<in> set (snd (match_form_submit user form db))) \<longleftrightarrow>
        submitted_name user form = [] \<or> f_acs form = None \<or> f_acs form = Some 0
        \<or> f_kills form = None \<or> f_deaths form = None \<or> f_assists form = None"
    by (auto simp: match_form_submit_def py_not_def Let_def)
next
  show "length (matches (add_match uid pname wl mp ag cr a' er k' d' s' db)) =
        Suc (length (matches db))"
    by (simp add: add_match_def)
qed


theorem match_form_submit_cases_witness:
  "submitted_name ruth (sample_form ''carol'' (Some 200)) \<noteq> []
   \<and> f_acs (sample_form ''carol'' (Some 200)) = Some 200 \<and> (200::int) \<noteq> 0
   \<and> f_kills (sample_form ''carol'' (Some 200)) = Some 14
   \<and> f_deaths (sample_form ''carol'' (Some 200)) = Some 9
   \<and> f_assists (sample_form ''carol'' (Some 200)) = Some 0
   \<and> snd (match_form_submit ruth (sample_form ''carol'' (Some 200)) sample_db) =
       [Success ''Match details added successfully!'']
   \<and> matches (fst (match_form_submit ruth (sample_form ''carol'' (Some 200)) sample_db)) =
       matches sample_db @
       [\<lparr>m_id = 4, user_id = 3, player_name = ''carol'', win_loss = ''Loss'',
         map_name = ''Split'', agent = ''Sova'', current_rank = ''Silver 2'', acs = 200,
         econ_rating = 61, kills = 14, deaths = 9, assists = 0\<rparr>]
   \<and> f_acs (sample_form ''carol'' (Some 0)) = Some 0
   \<and> fst (match_form_submit ruth (sample_form ''carol'' (Some 0)) sample_db) = sample_db
   \<and> last (snd (match_form_submit ruth (sample_form ''carol'' (Some 0)) sample_db)) =
       Error ''Please fill in all required fields.''"
proof -
  let ?f = "sample_form ''carol'' (Some 200)" and ?g = "sample_form ''carol'' (Some 0)"
  have h: "submitted_name ruth ?f \<noteq> [] \<and> f_acs ?f = Some 200 \<and> (200::int) \<noteq> 0
      \<and> f_kills ?f = Some 14 \<and> f_deaths ?f = Some 9 \<and> f_assists ?f = Some 0"
    by (simp add: submitted_name_def sample_form_def ruth_def)
  have z: "f_acs ?g = Some 0" by (simp add: sample_form_def)
  note t1 = match_form_submit_cases [of ruth ?f 200 14 9 0 sample_db, THEN conjunct1,
      rule_format, OF h]
  note t2 = match_form_submit_cases [of ruth ?g _ _ _ _ sample_db, THEN conjunct2,
      THEN conjunct1, rule_format, OF z]
  have e: "matches_seq sample_db = 4" "u_id ruth = 3" "submitted_name ruth ?f = ''carol''"
    "f_win_loss ?f = ''Loss''" "f_map_name ?f = ''Split''" "f_agent ?f = ''Sova''"
    "f_current_rank ?f = ''Silver 2''" "f_econ_rating ?f = 61"
    by (simp_all add: submitted_name_def sample_form_def ruth_def sample_db_def)
  have 1: "snd (match_form_submit ruth ?f sample_db) =
       [Success ''Match details added successfully!'']"
    using t1 [THEN conjunct1] by simp
  have 2: "matches (fst (match_form_submit ruth ?f sample_db)) =
       matches sample_db @
       [\<lparr>m_id = 4, user_id = 3, player_name = ''carol'', win_loss = ''Loss'',
         map_name = ''Split'', agent = ''Sova'', current_rank = ''Silver 2'', acs = 200,
         econ_rating = 61, kills = 14, deaths = 9, assists = 0\<rparr>]"
    using t1 [THEN conjunct2] unfolding e .
  from h 1 2 z t2 show ?thesis by (intro conjI) simp_all
qed

section \<open>Properties of the delete form\<close>

lemma prefix_append_short: "length s \<le> length a \<Longrightarrow> prefix s (a @ b) = prefix s a"
  by (auto simp: prefix_append)

lemma first_field_append:
  "sep \<noteq> [] \<Longrightarrow> first_field sep (xs @ sep @ ys) = first_field sep (xs @ sep)"
proof (induction xs)
  case Nil
  then show ?case by (cases sep) simp_all
next
  case (Cons x xs)
  have "prefix sep ((x # xs @ sep) @ ys) = prefix sep (x # xs @ sep)"
    by (rule prefix_append_short) simp
  with Cons show ?case by simp
qed

lemma first_field_set: "set (first_field sep s) \<subseteq> set s"
  by (induction s) auto

lemma strip_set: "set (strip s) \<subseteq> set s"
proof -
  have "set (strip s) \<subseteq> set (dropWhile py_isspace s)"
    unfolding strip_def by (auto dest: set_dropWhileD)
  also have "\<dots> \<subseteq> set s" by (auto dest: set_dropWhileD)
  finally show ?thesis .
qed

lemma int_digits_has_digit: "int_digits s \<Longrightarrow> \<exists>c\<in>set s. is_digit c"
  by (cases s rule: int_digits.cases) auto

lemma parse_digits_cases:
  "parse_digits s = Inl ValueError \<or> (\<exists>n. parse_digits s = Inr n \<and> (\<exists>c\<in>set s. is_digit c))"
  by (auto simp: parse_digits_def dest: int_digits_has_digit)

lemma ascii_int_cases:
  "ascii_int s = Inl ValueError \<or> (\<exists>n. ascii_int s = Inr n \<and> (\<exists>c\<in>set s. is_digit c))"
proof (cases "strip s")
  case Nil
  then show ?thesis by (simp add: ascii_int_def)
next
  case (Cons c r)
  have sub: "set (c # r) \<subseteq> set s" using strip_set [of s] Cons by simp
  show ?thesis
  proof (cases "c = CHR ''-'' \<or> c = CHR ''+''")
    case True
    from parse_digits_cases [of r] show ?thesis
    proof
      assume "parse_digits r = Inl ValueError"
      with Cons True show ?thesis by (auto simp: ascii_int_def)
    next
      assume "\<exists>n. parse_digits r = Inr n \<and> (\<exists>c\<in>set r. is_digit c)"
      then obtain n d where "parse_digits r = Inr n" "d \<in> set r" "is_digit d" by blast
      with Cons True sub show ?thesis by (auto simp: ascii_int_def)
    qed
  next
    case False
    from parse_digits_cases [of "c # r"] show ?thesis
    proof
      assume "parse_digits (c # r) = Inl ValueError"
      with Cons False show ?thesis by (auto simp: ascii_int_def)
    next
      assume "\<exists>n. parse_digits (c # r) = Inr n \<and> (\<exists>d\<in>set (c # r). is_digit d)"
      then obtain n d where "parse_digits (c # r) = Inr n" "d \<in> set (c # r)" "is_digit d"
        by blast
      with Cons False sub show ?thesis by (auto simp: ascii_int_def)
    qed
  qed
qed

lemma ascii_int_no_digit: "\<forall>c\<in>set s. \<not> is_digit c \<Longrightarrow> ascii_int s = Inl ValueError"
  using ascii_int_cases [of s] by blast

lemma record_option_first_field:
  "first_field '' | '' (record_option r) = first_field '' | '' (player_name r @ '' | '')"
proof -
  have "record_option r = player_name r @ '' | '' @
      (map_name r @ '' | '' @ agent r @ '' | '' @ current_rank r @ '' | '' @
       str_int (kills r) @ ''/'' @ str_int (deaths r))"
    by (simp add: record_option_def)
  then show ?thesis by (simp only: first_field_append [of "'' | ''"] list.distinct not_False_eq_True)
qed

lemma name_field_rejected:
  assumes "\<forall>c\<in>set name. is_ascii c \<and> \<not> is_digit c"
  shows "py_int unicode_int (first_field '' | '' (name @ '' | '')) = Inl ValueError"
proof -
  let ?field = "first_field '' | '' (name @ '' | '')"
  have chars: "is_ascii c \<and> \<not> is_digit c" if "c \<in> set ?field" for c
  proof -
    from that first_field_set [of "'' | ''" "name @ '' | ''"]
    have "c \<in> set name \<or> c \<in> set '' | ''" by auto
    then show ?thesis
    proof
      assume "c \<in> set name" with assms show ?thesis by blast
    next
      assume "c \<in> set '' | ''" then show ?thesis by (auto simp: is_digit_def is_ascii_def)
    qed
  qed
  then have "list_all is_ascii ?field" by (simp add: list_all_iff)
  then have "py_int unicode_int ?field = ascii_int ?field" by (simp add: py_int_def)
  also have "\<dots> = Inl ValueError" using chars by (intro ascii_int_no_digit) blast
  finally show ?thesis .
qed

text \<open>
  C10, amended. The first \<open>' | '\<close>-separated field of a record's display string is
  the first field of its player name followed by the separator: it is the beginning of
  the name and never involves the record's id. The delete handler passes that field to
  \<open>int\<close>. Whenever \<open>int\<close> rejects the field, the handler ends in that exception and
  \<open>delete_match\<close> is not called; \<open>int\<close> rejects it for every player name of ASCII
  characters without a decimal digit.
\<close>

theorem delete_form_first_field:
  "first_field '' | '' (record_option r) = first_field '' | '' (player_name r @ '' | '')
   \<and> (i < length (delete_options user db)
        \<and> py_int unicode_int
            (first_field '' | '' (player_name (delete_options user db ! i) @ '' | '')) = Inl e \<longrightarrow>
        delete_form_submit unicode_int user db i = Inl e)
   \<and> (i < length (delete_options user db)
        \<and> (\<forall>c\<in>set (player_name (delete_options user db ! i)). is_ascii c \<and> \<not> is_digit c) \<longrightarrow>
        delete_form_submit unicode_int user db i = Inl ValueError)"
proof -
  let ?name = "player_name (delete_options user db ! i)"
  have field: "first_field '' | '' (record_option r) = first_field '' | '' (player_name r @ '' | '')"
    by (rule record_option_first_field)
  have raise: "delete_form_submit unicode_int user db i = Inl e'"
    if "i < length (delete_options user db)"
      and "py_int unicode_int (first_field '' | '' (?name @ '' | '')) = Inl e'" for e'
    using that by (auto simp: delete_form_submit_def Let_def record_option_first_field)
  have plain: "delete_form_submit unicode_int user db i = Inl ValueError"
    if "i < length (delete_options user db)"
      and "\<forall>c\<in>set ?name. is_ascii c \<and> \<not> is_digit c"
    using that(1) name_field_rejected [OF that(2)] by (rule raise)
  from field raise plain show ?thesis by blast
qed

theorem delete_form_first_field_witness:
  "0 < length (delete_options ruth sample_db)
   \<and> player_name (delete_options ruth sample_db ! 0) = ''alice''
   \<and> list_all (\<lambda>c. is_ascii c \<and> \<not> is_digit c) ''alice''
   \<and> first_field '' | '' (record_option (sample_match 3 1 ''alice'' 300 20 0)) = ''alice''
   \<and> py_int (\<lambda>s. Inr 0) (first_field '' | '' (''alice'' @ '' | '')) = Inl ValueError
   \<and> delete_form_submit (\<lambda>s. Inr 0) ruth sample_db 0 = Inl ValueError"
proof -
  have opts: "delete_options ruth sample_db =
      [sample_match 3 1 ''alice'' 300 20 0, sample_match 2 2 ''bob'' 250 12 6,
       sample_match 1 1 ''alice'' 200 10 5]"
    by (simp add: delete_options_def fetch_all_matches_def sample_db_def ruth_def
        sample_match_def)
  have l: "0 < length (delete_options ruth sample_db)" by (simp add: opts)
  have n: "player_name (delete_options ruth sample_db ! 0) = ''alice''"
    by (simp add: opts sample_match_def)
  have d: "list_all (\<lambda>c. is_ascii c \<and> \<not> is_digit c) ''alice''"
    by (simp add: is_digit_def is_ascii_def)
  then have b: "\<forall>c\<in>set (player_name (delete_options ruth sample_db ! 0)).
      is_ascii c \<and> \<not> is_digit c"
    by (simp add: n)
  have p: "py_int (\<lambda>s. Inr 0) (first_field '' | '' (''alice'' @ '' | '')) = Inl ValueError"
    by (simp add: py_int_def is_ascii_def ascii_int_def strip_def py_isspace_def
        parse_digits_def is_digit_def)
  note t = delete_form_first_field [of "sample_match 3 1 ''alice'' 300 20 0" 0 ruth sample_db
      "\<lambda>s. Inr 0" ValueError]
  have f: "first_field '' | '' (record_option (sample_match 3 1 ''alice'' 300 20 0)) = ''alice''"
    using t [THEN conjunct1] by (simp add: sample_match_def)
  have s1: "delete_form_submit (\<lambda>s. Inr 0) ruth sample_db 0 = Inl ValueError"
    using t [THEN conjunct2, THEN conjunct1, THEN mp] l p by (simp add: n)
  have s2: "delete_form_submit (\<lambda>s. Inr 0) ruth sample_db 0 = Inl ValueError"
    using t [THEN conjunct2, THEN conjunct2, THEN mp, OF conjI [OF l b]] .
  from l n d f p s2 show ?thesis by (intro conjI)
qed

text \<open>
  C10 as stated fails: \<open>int\<close> accepts more than strings of decimal digits. The
  player name \<open>+2\<close> is not a string of decimal digits, yet for its record the
  conversion does not raise and \<open>delete_match\<close> is called.
\<close>

theorem signed_name_is_converted:
  "player_name (delete_options ruth signed_db ! 1) = ''+2''
   \<and> \<not> list_all is_digit ''+2''
   \<and> py_int (\<lambda>s. Inl ValueError) (first_field '' | '' (''+2'' @ '' | '')) = Inr 2
   \<and> delete_form_submit (\<lambda>s. Inl ValueError) ruth signed_db 1 =
       Inr (delete_match 2 ruth signed_db, [Success ''Record deleted successfully!''])
   \<and> delete_match 2 ruth signed_db =
       signed_db\<lparr>matches := [sample_match 1 3 ''+2'' 200 10 5]\<rparr>"
proof -
  have opts: "delete_options ruth signed_db =
      [sample_match 2 3 ''carol'' 250 12 6, sample_match 1 3 ''+2'' 200 10 5]"
    by (simp add: delete_options_def fetch_all_matches_def signed_db_def ruth_def
        sample_match_def)
  have n: "player_name (delete_options ruth signed_db ! 1) = ''+2''"
    by (simp add: opts sample_match_def)
  have d: "\<not> list_all is_digit ''+2''" by (simp add: is_digit_def)
  have f: "first_field '' | '' (record_option (sample_match 1 3 ''+2'' 200 10 5)) = ''+2''"
    by (simp add: record_option_def sample_match_def)
  have p: "py_int (\<lambda>s. Inl ValueError) ''+2'' = Inr 2"
    by (simp add: py_int_def is_ascii_def ascii_int_def strip_def py_isspace_def
        parse_digits_def is_digit_def digits_value_def)
  have p': "py_int (\<lambda>s. Inl ValueError) (first_field '' | '' (''+2'' @ '' | '')) = Inr 2"
    using p by simp
  have m: "delete_match 2 ruth signed_db =
      signed_db\<lparr>matches := [sample_match 1 3 ''+2'' 200 10 5]\<rparr>"
    by (simp add: delete_match_def ruth_def signed_db_def sample_match_def)
  have s: "delete_form_submit (\<lambda>s. Inl ValueError) ruth signed_db 1 =
       Inr (delete_match 2 ruth signed_db, [Success ''Record deleted successfully!''])"
    by (simp add: delete_form_submit_def Let_def opts f p)
  from n d p' s m show ?thesis by (intro conjI)
qed

section \<open>Properties of aggregation and ranking\<close>

lemma group_insert_keys: "fst ` set (group_insert k v gs) = insert k (fst ` set gs)"
  by (induction k v gs rule: group_insert.induct) auto

lemma group_insert_sorted:
  "sorted_wrt (<) (map fst gs) \<Longrightarrow> sorted_wrt (<) (map fst (group_insert k v gs))"
proof (induction k v gs rule: group_insert.induct)
  case (1 k v)
  then show ?case by simp
next
  case (2 k v k' vs gs)
  from 2(2) have above: "\<forall>x\<in>set gs. k' < fst x" and tl: "sorted_wrt (<) (map fst gs)"
    by simp_all
  consider "k = k'" | "k < k'" | "k' < k" by (cases k k' rule: linorder_cases) blast+
  then show ?case
  proof cases
    case 1
    with 2(2) show ?thesis by simp
  next
    case 2
    with above have "\<forall>x\<in>set gs. k < fst x" by (auto intro: less_trans)
    with 2 above tl show ?thesis by simp
  next
    case 3
    then have ne: "k \<noteq> k'" "\<not> k < k'" by auto
    from "2.IH" [OF ne tl] have "sorted_wrt (<) (map fst (group_insert k v gs))" .
    moreover have "\<forall>x\<in>set (group_insert k v gs). k' < fst x"
    proof
      fix x assume "x \<in> set (group_insert k v gs)"
      then have "fst x \<in> insert k (fst ` set gs)"
        using group_insert_keys [of k v gs] by blast
      with 3 above show "k' < fst x" by auto
    qed
    ultimately show ?thesis using ne by simp
  qed
qed

lemma sorted_head_absent:
  fixes k :: "'k::linorder"
  assumes "sorted_wrt (<) (k' # map fst gs)" and "k < k'"
  shows "map_of gs k = None"
proof -
  have "k \<notin> fst ` set gs"
  proof
    assume "k \<in> fst ` set gs"
    then obtain x where "x \<in> set gs" "fst x = k" by auto
    with assms(1) have "k' < k" by auto
    with assms(2) show False by simp
  qed
  then show ?thesis by (simp add: map_of_eq_None_iff)
qed

lemma group_insert_map_of:
  "sorted_wrt (<) (map fst gs) \<Longrightarrow>
   map_of (group_insert k v gs) k' =
     (if k' = k then Some (case map_of gs k of None \<Rightarrow> [v] | Some vs \<Rightarrow> vs @ [v])
      else map_of gs k')"
proof (induction k v gs rule: group_insert.induct)
  case (1 k v)
  then show ?case by simp
next
  case (2 k v k1 vs gs)
  show ?case
  proof (cases "k = k1")
    case True
    then show ?thesis by simp
  next
    case ne: False
    show ?thesis
    proof (cases "k < k1")
      case True
      from 2(2) have "sorted_wrt (<) (k1 # map fst gs)" by simp
      then have "map_of gs k = None" using True by (rule sorted_head_absent)
      with True ne show ?thesis by simp
    next
      case False
      with ne 2 show ?thesis by auto
    qed
  qed
qed

lemma groupby_snoc: "groupby key (xs @ [x]) = group_insert (key x) x (groupby key xs)"
  by (simp add: groupby_def)

lemma groupby_inv:
  "sorted_wrt (<) (map fst (groupby key xs)) \<and>
   (\<forall>k. map_of (groupby key xs) k =
      (if k \<in> key ` set xs then Some (filter (\<lambda>r. key r = k) xs) else None))"
proof (induction xs rule: rev_induct)
  case Nil
  then show ?case by (simp add: groupby_def)
next
  case (snoc x xs)
  let ?G = "groupby key xs"
  from snoc have s: "sorted_wrt (<) (map fst ?G)"
    and m: "\<And>k. map_of ?G k =
      (if k \<in> key ` set xs then Some (filter (\<lambda>r. key r = k) xs) else None)"
    by simp_all
  have "sorted_wrt (<) (map fst (groupby key (xs @ [x])))"
    unfolding groupby_snoc using s by (rule group_insert_sorted)
  moreover have "map_of (groupby key (xs @ [x])) k =
      (if k \<in> key ` set (xs @ [x]) then Some (filter (\<lambda>r. key r = k) (xs @ [x])) else None)"
    for k
  proof (cases "k = key x")
    case True
    have "filter (\<lambda>r. key r = key x) xs = []" if "key x \<notin> key ` set xs"
    proof -
      from that have "\<forall>r\<in>set xs. \<not> key r = key x" by (metis imageI)
      then show ?thesis by (simp only: filter_False)
    qed
    with True show ?thesis
      by (simp add: groupby_snoc group_insert_map_of [OF s] m)
  next
    case False
    then show ?thesis
      by (auto simp: groupby_snoc group_insert_map_of [OF s] m)
  qed
  ultimately show ?case by blast
qed

lemma distinct_map_of_rebuild:
  "distinct (map fst gs) \<Longrightarrow> map (\<lambda>k. (k, the (map_of gs k))) (map fst gs) = gs"
proof (induction gs)
  case Nil
  then show ?case by simp
next
  case (Cons g gs)
  obtain a b where g: "g = (a, b)" by (cases g)
  from Cons.prems g have na: "a \<notin> fst ` set gs" and d: "distinct (map fst gs)" by auto
  have "map (\<lambda>k. (k, the (map_of (g # gs) k))) (map fst gs) =
      map (\<lambda>k. (k, the (map_of gs k))) (map fst gs)"
    using na g by (intro map_cong) auto
  with Cons.IH [OF d] g show ?case by simp
qed

lemma groupby_filter:
  "groupby key xs =
     map (\<lambda>k. (k, filter (\<lambda>r. key r = k) xs)) (sort (remdups (map key xs)))"
proof -
  let ?G = "groupby key xs"
  from groupby_inv [of key xs] have s: "sorted_wrt (<) (map fst ?G)"
    and m: "\<And>k. map_of ?G k =
      (if k \<in> key ` set xs then Some (filter (\<lambda>r. key r = k) xs) else None)"
    by simp_all
  from s have sd: "sorted (map fst ?G)" "distinct (map fst ?G)"
    by (simp_all add: strict_sorted_iff)
  have keys: "fst ` set ?G = key ` set xs"
  proof -
    have "k \<in> fst ` set ?G \<longleftrightarrow> k \<in> key ` set xs" for k
    proof -
      have "(map_of ?G k = None) = (k \<notin> fst ` set ?G)" by (rule map_of_eq_None_iff)
      with m [of k] show ?thesis by (cases "k \<in> key ` set xs") simp_all
    qed
    then show ?thesis by auto
  qed
  have ks: "map fst ?G = sort (remdups (map key xs))"
    by (rule sorted_distinct_set_unique) (simp_all add: sd keys)
  have "?G = map (\<lambda>k. (k, the (map_of ?G k))) (map fst ?G)"
    by (rule distinct_map_of_rebuild [OF sd(2), symmetric])
  also have "\<dots> = map (\<lambda>k. (k, filter (\<lambda>r. key r = k) xs)) (map fst ?G)"
    by (rule map_cong) (simp_all add: m keys)
  finally show ?thesis by (simp only: ks)
qed


lemma round_half_even_near: "\<bar>of_int (round_half_even y) - y\<bar> \<le> 1 / 2"
proof -
  have "of_int \<lfloor>y\<rfloor> \<le> y" "y < of_int \<lfloor>y\<rfloor> + 1" by linarith+
  then show ?thesis
    by (auto simp: round_half_even_def Let_def abs_le_iff)
qed

lemma round_half_even_of_int: "round_half_even (of_int m) = m"
  by (simp add: round_half_even_def)

lemma ilog2_of_int:
  assumes "0 < n"
  shows "ilog2 (of_int n) = bitlen n - 1"
proof -
  from assms have b: "1 \<le> bitlen n" by (auto simp: bitlen_alt_def)
  from bitlen_bounds [OF assms] have "(2::int) ^ nat (bitlen n - 1) \<le> n" by simp
  then have "(of_int ((2::int) ^ nat (bitlen n - 1)) :: rat) \<le> of_int n"
    by (simp only: of_int_le_iff)
  then have "(2::rat) ^ nat (bitlen n - 1) \<le> of_int n" by simp
  with b have "(2::rat) powi (bitlen n - 1) \<le> of_int n"
    by (simp add: power_int_def)
  moreover have "bitlen 1 = 1" by (simp add: bitlen_alt_def)
  ultimately show ?thesis
    by (simp add: ilog2_def Let_def)
qed

lemma fl_of_int:
  assumes "0 \<le> n" and "n < 2 ^ 53"
  shows "fl (of_int n) = of_int n"
proof (cases "n = 0")
  case True
  then show ?thesis by (simp add: fl_def)
next
  case False
  with assms have pos: "0 < n" by simp
  define k where "k = nat (53 - bitlen n)"
  from pos have b1: "1 \<le> bitlen n" by (auto simp: bitlen_alt_def)
  have b2: "bitlen n \<le> 53"
  proof (rule ccontr)
    assume "\<not> bitlen n \<le> 53"
    then have "53 \<le> nat (bitlen n - 1)" by simp
    then have "(2::int) ^ 53 \<le> 2 ^ nat (bitlen n - 1)" by (intro power_increasing) simp_all
    with bitlen_bounds [OF pos] assms(2) show False by simp
  qed
  have e: "ilog2 (of_int n) - 52 = - int k"
    using pos b1 b2 by (simp add: ilog2_of_int k_def)
  have a: "\<bar>of_int n :: rat\<bar> = of_int n" using pos by simp
  have p: "(2::rat) powi (- int k) = 1 / 2 ^ k"
    by (simp add: power_int_minus field_simps)
  have "of_int n / (2::rat) powi (- int k) = of_int (n * 2 ^ k)"
    by (simp add: p)
  then have r: "round_half_even (of_int n / (2::rat) powi (- int k)) = n * 2 ^ k"
    by (simp only: round_half_even_of_int)
  have "fl (of_int n) =
      of_int (round_half_even (of_int n / (2::rat) powi (- int k))) * 2 powi (- int k)"
    using pos by (simp only: fl_def Let_def a e) simp
  also have "\<dots> = of_int n"
  proof -
    have "round_half_even (of_int n * 2 ^ k) = n * 2 ^ k"
      using round_half_even_of_int [of "n * 2 ^ k"] by simp
    then show ?thesis by (simp add: p)
  qed
  finally show ?thesis .
qed

lemma fl_zero: "fl 0 = 0"
  by (simp add: fl_def)

lemma kahan_ints:
  assumes "\<forall>x\<in>set xs. 0 \<le> x" and "0 \<le> s" and "s + sum_list xs < 2 ^ 53"
  shows "kahan (of_int s, 0) (map (\<lambda>x. fl (of_int x)) xs) = (of_int (s + sum_list xs), 0)"
  using assms
proof (induction xs arbitrary: s)
  case Nil
  then show ?case by simp
next
  case (Cons x xs)
  from Cons.prems have x: "0 \<le> x" and rest: "\<forall>y\<in>set xs. 0 \<le> y" by simp_all
  from rest have nn: "0 \<le> sum_list xs" by (simp add: sum_list_nonneg)
  with Cons.prems x have bx: "x < 2 ^ 53" and bs: "s + x < 2 ^ 53" by simp_all
  have fx: "fl (of_int x) = of_int x" using x bx by (rule fl_of_int)
  have fs: "fl (of_int s + of_int x) = of_int (s + x)"
    using fl_of_int [of "s + x"] Cons.prems(2) x bs by simp
  have fd: "fl (of_int (s + x) - of_int s) = (of_int x :: rat)"
    using fx by simp
  have step: "kahan (of_int s, 0) (map (\<lambda>x. fl (of_int x)) (x # xs)) =
      kahan (of_int (s + x), 0) (map (\<lambda>x. fl (of_int x)) xs)"
    by (simp add: Let_def fx fs fd fl_zero del: of_int_add)
  have "kahan (of_int (s + x), 0) (map (\<lambda>x. fl (of_int x)) xs) =
      (of_int (s + x + sum_list xs), 0)"
    using rest Cons.prems x by (intro Cons.IH) simp_all
  with step show ?case by (simp add: add.assoc)
qed

lemma group_mean_ints:
  assumes "\<forall>x\<in>set xs. 0 \<le> x" and "sum_list xs < 2 ^ 53"
  shows "group_mean (map (\<lambda>x. fl (of_int x)) xs) = fl (of_int (sum_list xs) / of_nat (length xs))"
  using kahan_ints [of xs 0] assms by (simp add: group_mean_def)

lemma round2_pin:
  "\<exists>k. round2 x = fl (of_int k / 100) \<and> \<bar>of_int k - fl (x * 100)\<bar> \<le> 1 / 2"
  using round_half_even_near [of "fl (x * 100)"]
  by (intro exI [of _ "round_half_even (fl (x * 100))"]) (simp add: round2_def)

lemma power_int_diff_pred: "1 \<le> a \<Longrightarrow> (2::rat) powi (int a - int b - 1) = 2 ^ (a - 1) / 2 ^ b"
proof -
  assume a1: "1 \<le> a"
  have "int a - int b - 1 = int (a - 1) - int b" using a1 by simp
  then have "(2::rat) powi (int a - int b - 1) = 2 powi (int (a - 1) - int b)" by (rule arg_cong)
  also have "\<dots> = 2 powi int (a - 1) / 2 powi int b" by (rule power_int_diff) simp
  also have "\<dots> = 2 ^ (a - 1) / 2 ^ b" by (simp only: power_int_of_nat)
  finally show ?thesis .
qed

lemma power_int_diff_succ: "1 \<le> b \<Longrightarrow> (2::rat) powi (int a - int b + 1) = 2 ^ a / 2 ^ (b - 1)"
proof -
  assume b1: "1 \<le> b"
  have "int a - int b + 1 = int a - int (b - 1)" using b1 by simp
  then have "(2::rat) powi (int a - int b + 1) = 2 powi (int a - int (b - 1))" by (rule arg_cong)
  also have "\<dots> = 2 powi int a / 2 powi int (b - 1)" by (rule power_int_diff) simp
  also have "\<dots> = 2 ^ a / 2 ^ (b - 1)" by (simp only: power_int_of_nat)
  finally show ?thesis .
qed

lemma quotient_lower:
  fixes p q :: int
  assumes rpl: "(2::rat) ^ (a - 1) \<le> of_int p" and rqu: "(of_int q :: rat) < 2 ^ b"
    and rq: "(0::rat) < of_int q" and rp: "(0::rat) < of_int p"
  shows "(2::rat) ^ (a - 1) / 2 ^ b \<le> of_int p / of_int q"
proof -
  have "(2::rat) ^ (a - 1) / 2 ^ b \<le> of_int p / 2 ^ b"
    using rpl by (rule divide_right_mono) simp
  also have "\<dots> \<le> of_int p / of_int q"
  proof (rule divide_left_mono)
    show "(of_int q :: rat) \<le> 2 ^ b" using rqu by (rule less_imp_le)
    show "(0::rat) \<le> of_int p" using rp by (rule less_imp_le)
    show "(0::rat) < 2 ^ b * of_int q" using rq by (intro mult_pos_pos) simp_all
  qed
  finally show ?thesis .
qed

lemma quotient_upper:
  fixes p q :: int
  assumes rpu: "(of_int p :: rat) < 2 ^ a" and rql: "(2::rat) ^ (b - 1) \<le> of_int q"
    and rq: "(0::rat) < of_int q"
  shows "of_int p / of_int q < (2::rat) ^ a / 2 ^ (b - 1)"
proof -
  have "of_int p / of_int q < (2::rat) ^ a / of_int q"
    using rpu rq by (rule divide_strict_right_mono)
  also have "\<dots> \<le> 2 ^ a / 2 ^ (b - 1)"
  proof (rule divide_left_mono)
    show "(2::rat) ^ (b - 1) \<le> of_int q" by (rule rql)
    show "(0::rat) \<le> 2 ^ a" by simp
    show "(0::rat) < of_int q * 2 ^ (b - 1)" using rq by (intro mult_pos_pos) simp_all
  qed
  finally show ?thesis .
qed

lemma ilog2_bounds:
  assumes "0 < x"
  shows "2 powi (ilog2 x) \<le> x \<and> x < 2 powi (ilog2 x + 1)"
proof -
  obtain p q where pq: "quotient_of x = (p, q)" by (cases "quotient_of x")
  then have q: "0 < q" and x: "x = of_int p / of_int q"
    by (simp_all add: quotient_of_denom_pos quotient_of_div)
  from assms x q have p: "0 < p" by (simp add: zero_less_divide_iff)
  define a b where "a = nat (bitlen p)" and "b = nat (bitlen q)"
  from p have "1 \<le> bitlen p" by (auto simp: bitlen_alt_def)
  then have a1: "1 \<le> a" by (simp add: a_def)
  from q have "1 \<le> bitlen q" by (auto simp: bitlen_alt_def)
  then have b1: "1 \<le> b" by (simp add: b_def)
  have ba: "bitlen p = int a" and bb: "bitlen q = int b"
    by (simp_all add: a_def b_def bitlen_nonneg)
  have na: "nat (bitlen p - 1) = a - 1" and nb: "nat (bitlen q - 1) = b - 1"
    unfolding a_def b_def by arith+
  from bitlen_bounds [OF p] have pl: "(2::int) ^ (a - 1) \<le> p" and pu: "p < 2 ^ a"
    unfolding na a_def by blast+
  from bitlen_bounds [OF q] have ql: "(2::int) ^ (b - 1) \<le> q" and qu: "q < 2 ^ b"
    unfolding nb b_def by blast+
  have rpl: "(2::rat) ^ (a - 1) \<le> of_int p"
  proof -
    from pl have "(of_int ((2::int) ^ (a - 1)) :: rat) \<le> of_int p" by (simp only: of_int_le_iff)
    then show ?thesis by simp
  qed
  have rpu: "(of_int p :: rat) < 2 ^ a"
  proof -
    from pu have "(of_int p :: rat) < of_int ((2::int) ^ a)" by (simp only: of_int_less_iff)
    then show ?thesis by simp
  qed
  have rql: "(2::rat) ^ (b - 1) \<le> of_int q"
  proof -
    from ql have "(of_int ((2::int) ^ (b - 1)) :: rat) \<le> of_int q" by (simp only: of_int_le_iff)
    then show ?thesis by simp
  qed
  have rqu: "(of_int q :: rat) < 2 ^ b"
  proof -
    from qu have "(of_int q :: rat) < of_int ((2::int) ^ b)" by (simp only: of_int_less_iff)
    then show ?thesis by simp
  qed
  have rq: "(0::rat) < of_int q" and rp: "(0::rat) < of_int p" using p q by simp_all
  have low: "(2::rat) powi (int a - int b - 1) \<le> x"
    unfolding power_int_diff_pred [OF a1] x using rpl rqu rq rp by (rule quotient_lower)
  have up: "x < (2::rat) powi (int a - int b + 1)"
    unfolding power_int_diff_succ [OF b1] x using rpu rql rq by (rule quotient_upper)
  have il: "ilog2 x = (if 2 powi (int a - int b) \<le> x then int a - int b else int a - int b - 1)"
    unfolding ilog2_def pq fst_conv snd_conv ba bb Let_def ..
  show ?thesis
  proof (cases "(2::rat) powi (int a - int b) \<le> x")
    case True
    then have "ilog2 x = int a - int b" by (simp only: il if_True)
    with True up show ?thesis by simp
  next
    case False
    then have i: "ilog2 x = int a - int b - 1" by (simp only: il if_False)
    from False have "x < (2::rat) powi (int a - int b)" by (simp only: not_le)
    with low i show ?thesis by simp
  qed
qed

lemma fl_error: "\<bar>fl x - x\<bar> \<le> \<bar>x\<bar> / 2 ^ 53"
proof (cases "x = 0")
  case True
  then show ?thesis by (simp add: fl_def)
next
  case False
  define e where "e = ilog2 \<bar>x\<bar> - 52"
  define m where "m = x / 2 powi e"
  have pe: "(0::rat) < 2 powi e" by simp
  have flx: "fl x = of_int (round_half_even m) * 2 powi e"
    using False by (simp add: fl_def Let_def e_def m_def)
  have xm: "x = m * 2 powi e" by (simp add: m_def)
  have "fl x - x = (of_int (round_half_even m) - m) * 2 powi e"
    by (simp add: flx algebra_simps) (simp add: m_def)
  then have "\<bar>fl x - x\<bar> = \<bar>of_int (round_half_even m) - m\<bar> * 2 powi e"
    by (simp add: abs_mult)
  also have "\<dots> \<le> 1 / 2 * 2 powi e"
    using round_half_even_near [of m] pe by (intro mult_right_mono) simp_all
  finally have 1: "\<bar>fl x - x\<bar> \<le> 2 powi e / 2" by simp
  from False have "0 < \<bar>x\<bar>" by simp
  from ilog2_bounds [OF this] have "(2::rat) powi (ilog2 \<bar>x\<bar>) \<le> \<bar>x\<bar>" by simp
  moreover have "(2::rat) powi (ilog2 \<bar>x\<bar>) = 2 powi e * 2 ^ 52"
  proof -
    have "ilog2 \<bar>x\<bar> = e + 52" by (simp add: e_def)
    then show ?thesis by (simp add: power_int_add)
  qed
  ultimately have "2 powi e * 2 ^ 52 \<le> \<bar>x\<bar>" by simp
  then have "2 powi e / 2 \<le> \<bar>x\<bar> / 2 ^ 53" by simp
  with 1 show ?thesis by linarith
qed

lemma agg_group_pairs:
  "round_row (agg_group (p, map (\<lambda>row. (row, fl (calculate_kd_ratio (kills row) (deaths row)))) g)) =
     \<lparr>agg_player_name = p,
      avg_acs = round2 (group_mean (map (\<lambda>r. fl (of_int (acs r))) g)),
      avg_econ_rating = round2 (group_mean (map (\<lambda>r. fl (econ_rating r)) g)),
      total_kills = sum_list (map kills g),
      total_deaths = sum_list (map deaths g),
      total_assists = sum_list (map assists g),
      avg_kd_ratio =
        round2 (group_mean (map (\<lambda>r. fl (calculate_kd_ratio (kills r) (deaths r))) g)),
      matches_played = int (length g)\<rparr>"
  by (simp add: agg_group_def round_row_def comp_def)

lemma aggregate_rows:
  assumes "data \<noteq> []"
  shows "rows (aggregate_player_stats data) =
     map (\<lambda>p. round_row (agg_group (p,
            map (\<lambda>row. (row, fl (calculate_kd_ratio (kills row) (deaths row))))
              (filter (\<lambda>r. player_name r = p) data))))
       (sort (remdups (map player_name data)))"
proof -
  let ?pair = "\<lambda>row. (row, fl (calculate_kd_ratio (kills row) (deaths row)))"
  have flt: "filter (\<lambda>r. player_name (fst r) = p) (map ?pair data) =
      map ?pair (filter (\<lambda>r. player_name r = p) data)" for p
    by (simp add: filter_map comp_def)
  have "rows (aggregate_player_stats data) =
      map round_row (map agg_group (groupby (\<lambda>r. player_name (fst r)) (map ?pair data)))"
    using assms by (simp add: aggregate_player_stats_def Let_def)
  also have "\<dots> = map (\<lambda>p. round_row (agg_group (p,
        filter (\<lambda>r. player_name (fst r) = p) (map ?pair data))))
      (sort (remdups (map player_name data)))"
    by (simp add: groupby_filter comp_def)
  finally show ?thesis by (simp only: flt)
qed

lemma sample_means:
  "round2 (group_mean [fl 200, fl 301]) = 501 / 2"
  "round2 (group_mean [fl 50, fl 50]) = 50"
  "round2 (group_mean [fl (10 / 3), fl 20]) = 6569625956426711 / 562949953421312"
  "round2 (group_mean [fl 251]) = 251"
  "round2 (group_mean [fl 50]) = 50"
  "round2 (group_mean [fl (23 / 40)]) = 5134103575202365 / 9007199254740992"
  "round2 (group_mean [fl 200]) = 200"
  by code_simp+

lemma spec_round2_tie: "spec_round2 (23 / 40) = 58 / 100"
  by code_simp


lemma example_means:
  "round2 (group_mean [fl 200, fl 300]) = 250" "round2 (group_mean [fl 2, fl 20]) = 11"
  by code_simp+

text \<open>
  C3, amended. For every non-empty list of match records within the range of the
  columns' types the aggregated frame has one row per player name, in increasing order of
  the name, and the row of a name is computed from the records of that name, in their
  input order: the totals are the sums of kills, deaths and assists,
  \<open>matches_played\<close> is the number of records, and \<open>avg_acs\<close>,
  \<open>avg_econ_rating\<close> and \<open>avg_kd_ratio\<close> are the double-precision mean of the
  column (for the last, of the records' K/D ratios, each by \<open>calculate_kd_ratio\<close>),
  rounded to two decimal places by NumPy. That mean is the sum divided by the number of
  records, rounded to a double, whenever the values are non-negative integers whose sum
  is below \<open>2 ^ 53\<close>; the rounding gives the double nearest to \<open>k / 100\<close>, where
  \<open>k\<close> is an integer nearest to 100 times the mean as computed in doubles; and a
  double differs from the number it rounds by at most one part in \<open>2 ^ 53\<close>. Two
  records of player A with ACS 200 and 300, kills 10 and 20 and deaths 5 and 0 give
  \<open>avg_acs\<close> 250, \<open>avg_kd_ratio\<close> 11, two matches, 30 kills and 5 deaths, whatever
  their other fields are.
\<close>

theorem aggregate_player_stats_groups:
  "(data \<noteq> [] \<and> within_range data \<longrightarrow>
      columns (aggregate_player_stats data) =
        [''player_name'', ''avg_acs'', ''avg_econ_rating'', ''kills'', ''deaths'', ''assists'',
         ''K/D Ratio'', ''matches_played'']
      \<and> rows (aggregate_player_stats data) =
          map (\<lambda>p. let g = filter (\<lambda>r. player_name r = p) data in
                 \<lparr>agg_player_name = p,
                  avg_acs = round2 (group_mean (map (\<lambda>r. fl (of_int (acs r))) g)),
                  avg_econ_rating = round2 (group_mean (map (\<lambda>r. fl (econ_rating r)) g)),
                  total_kills = sum_list (map kills g),
                  total_deaths = sum_list (map deaths g),
                  total_assists = sum_list (map assists g),
                  avg_kd_ratio =
                    round2 (group_mean
                      (map (\<lambda>r. fl (calculate_kd_ratio (kills r) (deaths r))) g)),
                  matches_played = int (length g)\<rparr>)
            (sort (remdups (map player_name data))))
   \<and> ((\<forall>x\<in>set xs. 0 \<le> x) \<and> sum_list xs < 2 ^ 53 \<longrightarrow>
        group_mean (map (\<lambda>x. fl (of_int x)) xs) =
          fl (of_int (sum_list xs) / of_nat (length xs)))
   \<and> (\<exists>k. round2 x = fl (of_int k / 100) \<and> \<bar>of_int k - fl (x * 100)\<bar> \<le> 1 / 2)
   \<and> \<bar>fl x - x\<bar> \<le> \<bar>x\<bar> / 2 ^ 53
   \<and> (within_range
        [r1\<lparr>player_name := ''A'', acs := 200, kills := 10, deaths := 5\<rparr>,
         r2\<lparr>player_name := ''A'', acs := 300, kills := 20, deaths := 0\<rparr>] \<longrightarrow>
      rows (aggregate_player_stats
        [r1\<lparr>player_name := ''A'', acs := 200, kills := 10, deaths := 5\<rparr>,
         r2\<lparr>player_name := ''A'', acs := 300, kills := 20, deaths := 0\<rparr>]) =
       [\<lparr>agg_player_name = ''A'', avg_acs = 250,
         avg_econ_rating = round2 (group_mean [fl (econ_rating r1), fl (econ_rating r2)]),
         total_kills = 30, total_deaths = 5, total_assists = assists r1 + assists r2,
         avg_kd_ratio = 11, matches_played = 2\<rparr>])"
proof -
  have cols: "columns (aggregate_player_stats data) =
        [''player_name'', ''avg_acs'', ''avg_econ_rating'', ''kills'', ''deaths'', ''assists'',
         ''K/D Ratio'', ''matches_played'']" if "data \<noteq> []"
    using that by (simp add: aggregate_player_stats_def Let_def)
  have rws: "rows (aggregate_player_stats data) =
          map (\<lambda>p. let g = filter (\<lambda>r. player_name r = p) data in
                 \<lparr>agg_player_name = p,
                  avg_acs = round2 (group_mean (map (\<lambda>r. fl (of_int (acs r))) g)),
                  avg_econ_rating = round2 (group_mean (map (\<lambda>r. fl (econ_rating r)) g)),
                  total_kills = sum_list (map kills g),
                  total_deaths = sum_list (map deaths g),
                  total_assists = sum_list (map assists g),
                  avg_kd_ratio =
                    round2 (group_mean
                      (map (\<lambda>r. fl (calculate_kd_ratio (kills r) (deaths r))) g)),
                  matches_played = int (length g)\<rparr>)
            (sort (remdups (map player_name data)))" if "data \<noteq> []"
    using that by (simp add: aggregate_rows agg_group_pairs Let_def)
  have ints: "group_mean (map (\<lambda>x. fl (of_int x)) xs) =
          fl (of_int (sum_list xs) / of_nat (length xs))"
    if "(\<forall>x\<in>set xs. 0 \<le> x) \<and> sum_list xs < 2 ^ 53"
    using that by (intro group_mean_ints) simp_all
  let ?a = "r1\<lparr>player_name := ''A'', acs := 200, kills := 10, deaths := 5\<rparr>"
  let ?b = "r2\<lparr>player_name := ''A'', acs := 300, kills := 20, deaths := 0\<rparr>"
  have "rows (aggregate_player_stats [?a, ?b]) =
      [round_row (agg_group (''A'',
         map (\<lambda>row. (row, fl (calculate_kd_ratio (kills row) (deaths row)))) [?a, ?b]))]"
    by (simp add: aggregate_rows)
  also have "\<dots> = [\<lparr>agg_player_name = ''A'', avg_acs = 250,
         avg_econ_rating = round2 (group_mean [fl (econ_rating r1), fl (econ_rating r2)]),
         total_kills = 30, total_deaths = 5, total_assists = assists r1 + assists r2,
         avg_kd_ratio = 11, matches_played = 2\<rparr>]"
    by (simp add: agg_group_def round_row_def calculate_kd_ratio_def example_means)
  finally have ex: "rows (aggregate_player_stats [?a, ?b]) =
       [\<lparr>agg_player_name = ''A'', avg_acs = 250,
         avg_econ_rating = round2 (group_mean [fl (econ_rating r1), fl (econ_rating r2)]),
         total_kills = 30, total_deaths = 5, total_assists = assists r1 + assists r2,
         avg_kd_ratio = 11, matches_played = 2\<rparr>]" .
  from cols rws ints round2_pin [of x] fl_error [of x] ex show ?thesis
    by (intro conjI impI) blast+
qed

theorem aggregate_player_stats_groups_witness:
  "sample_records \<noteq> [] \<and> within_range sample_records
   \<and> columns (aggregate_player_stats sample_records) =
        [''player_name'', ''avg_acs'', ''avg_econ_rating'', ''kills'', ''deaths'', ''assists'',
         ''K/D Ratio'', ''matches_played'']
   \<and> rows (aggregate_player_stats sample_records) =
       [\<lparr>agg_player_name = ''alice'', avg_acs = 501 / 2, avg_econ_rating = 50,
         total_kills = 30, total_deaths = 3, total_assists = 6,
         avg_kd_ratio = 6569625956426711 / 562949953421312, matches_played = 2\<rparr>,
        \<lparr>agg_player_name = ''bob'', avg_acs = 251, avg_econ_rating = 50, total_kills = 23,
         total_deaths = 40, total_assists = 3,
         avg_kd_ratio = 5134103575202365 / 9007199254740992, matches_played = 1\<rparr>]
   \<and> list_all (\<lambda>x. 0 \<le> x) [200, 301 :: int] \<and> sum_list [200, 301 :: int] < 2 ^ 53
   \<and> group_mean (map (\<lambda>x. fl (of_int x)) [200, 301]) = fl (501 / 2)
   \<and> within_range [sample_match 1 1 ''A'' 200 10 5, sample_match 2 1 ''A'' 300 20 0]
   \<and> rows (aggregate_player_stats
        [sample_match 1 1 ''A'' 200 10 5, sample_match 2 1 ''A'' 300 20 0]) =
       [\<lparr>agg_player_name = ''A'', avg_acs = 250, avg_econ_rating = 50, total_kills = 30,
         total_deaths = 5, total_assists = 6, avg_kd_ratio = 11, matches_played = 2\<rparr>]"
proof -
  have ne: "sample_records \<noteq> []" by (simp add: sample_records_def)
  have wr: "within_range sample_records"
    by (simp add: within_range_def sample_records_def sample_match_def)
  have nn: "list_all (\<lambda>x. 0 \<le> x) [200, 301 :: int]" by simp
  have sm: "sum_list [200, 301 :: int] < 2 ^ 53" by simp
  from nn have hyp: "(\<forall>x\<in>set [200, 301 :: int]. 0 \<le> x) \<and> sum_list [200, 301 :: int] < 2 ^ 53"
    by simp
  let ?a = "sample_match 1 1 ''A'' 200 10 5"
  let ?b = "sample_match 2 1 ''A'' 300 20 0"
  have a: "?a\<lparr>player_name := ''A'', acs := 200, kills := 10, deaths := 5\<rparr> = ?a"
    and b: "?b\<lparr>player_name := ''A'', acs := 300, kills := 20, deaths := 0\<rparr> = ?b"
    by (simp_all add: sample_match_def)
  have wr2: "within_range [?a, ?b]"
    by (simp add: within_range_def sample_match_def)
  note t = aggregate_player_stats_groups
    [where data = sample_records and xs = "[200, 301]" and ?r1.0 = ?a and ?r2.0 = ?b]
  note t1 = t [THEN conjunct1, THEN mp, OF conjI, OF ne wr]
  note t2 = t [THEN conjunct2, THEN conjunct1, THEN mp, OF hyp]
  note t5 = t [THEN conjunct2, THEN conjunct2, THEN conjunct2, THEN conjunct2,
    unfolded a b, THEN mp, OF wr2]
  have keys: "sort (remdups (map player_name sample_records)) = [''alice'', ''bob'']"
    by (simp add: sample_records_def sample_match_def)
  have rws: "rows (aggregate_player_stats sample_records) =
       [\<lparr>agg_player_name = ''alice'', avg_acs = 501 / 2, avg_econ_rating = 50,
         total_kills = 30, total_deaths = 3, total_assists = 6,
         avg_kd_ratio = 6569625956426711 / 562949953421312, matches_played = 2\<rparr>,
        \<lparr>agg_player_name = ''bob'', avg_acs = 251, avg_econ_rating = 50, total_kills = 23,
         total_deaths = 40, total_assists = 3,
         avg_kd_ratio = 5134103575202365 / 9007199254740992, matches_played = 1\<rparr>]"
    unfolding t1 [THEN conjunct2] keys
    by (simp add: sample_records_def sample_match_def calculate_kd_ratio_def sample_means)
  from t2 have gm: "group_mean (map (\<lambda>x. fl (of_int x)) [200, 301]) = fl (501 / 2)"
    by simp
  have ex: "rows (aggregate_player_stats [?a, ?b]) =
       [\<lparr>agg_player_name = ''A'', avg_acs = 250, avg_econ_rating = 50, total_kills = 30,
         total_deaths = 5, total_assists = 6, avg_kd_ratio = 11, matches_played = 2\<rparr>]"
    unfolding t5 by (simp add: sample_match_def sample_means)
  from ne wr t1 [THEN conjunct1] rws nn sm gm wr2 ex show ?thesis by (intro conjI)
qed

text \<open>
  C3 as stated fails. One record with 23 kills and 40 deaths has the K/D ratio 23/40,
  whose mean rounded to two decimal places is 0.58. The code computes in doubles: the
  ratio is stored as the double just below 0.575, and the result is the double nearest
  to 0.57.
\<close>

theorem tie_rounds_down_in_double:
  "rows (aggregate_player_stats [sample_match 1 1 ''alice'' 200 23 40]) =
     [\<lparr>agg_player_name = ''alice'', avg_acs = 200, avg_econ_rating = 50, total_kills = 23,
       total_deaths = 40, total_assists = 3,
       avg_kd_ratio = 5134103575202365 / 9007199254740992, matches_played = 1\<rparr>]
   \<and> calculate_kd_ratio 23 40 = 23 / 40
   \<and> spec_round2 (23 / 40) = 58 / 100
   \<and> (5134103575202365 / 9007199254740992 :: rat) < 571 / 1000"
proof -
  have 1: "rows (aggregate_player_stats [sample_match 1 1 ''alice'' 200 23 40]) =
     [\<lparr>agg_player_name = ''alice'', avg_acs = 200, avg_econ_rating = 50, total_kills = 23,
       total_deaths = 40, total_assists = 3,
       avg_kd_ratio = 5134103575202365 / 9007199254740992, matches_played = 1\<rparr>]"
    by (simp add: aggregate_rows agg_group_def round_row_def sample_match_def
        calculate_kd_ratio_def sample_means)
  have 2: "calculate_kd_ratio 23 40 = 23 / 40" by (simp add: calculate_kd_ratio_def)
  have 4: "(5134103575202365 / 9007199254740992 :: rat) < 571 / 1000" by simp
  from 1 2 spec_round2_tie 4 show ?thesis by (intro conjI)
qed

lemma aggregate_has_avg_acs:
  "data \<noteq> [] \<Longrightarrow> ''avg_acs'' \<in> set (columns (aggregate_player_stats data))"
  by (simp add: aggregate_player_stats_def Let_def)

text \<open>
  C9, amended. \<open>aggregate_player_stats\<close> of an empty input is the empty frame, without
  columns and without rows, and no error. \<open>rank_players\<close> of that frame raises
  \<open>KeyError\<close>, since the frame has no \<open>avg_acs\<close> column. The leaderboard never
  passes it on: with no match rows it shows the no-data message, and whatever the
  database holds it does not raise.
\<close>

theorem empty_aggregate_not_ranked:
  "aggregate_player_stats [] = empty_frame
   \<and> columns (aggregate_player_stats []) = [] \<and> rows (aggregate_player_stats []) = []
   \<and> rank_players sv (aggregate_player_stats []) = Inl (KeyError ''avg_acs'')
   \<and> leaderboard sv (db\<lparr>matches := []\<rparr>) = Inr (None, [Info ''No leaderboard data available.''])
   \<and> (\<forall>e. leaderboard sv db \<noteq> Inl e)"
proof (intro conjI allI)
  show e: "aggregate_player_stats [] = empty_frame"
    by (simp add: aggregate_player_stats_def)
  show "columns (aggregate_player_stats []) = []" "rows (aggregate_player_stats []) = []"
    by (simp_all add: e empty_frame_def)
  show "rank_players sv (aggregate_player_stats []) = Inl (KeyError ''avg_acs'')"
    by (simp add: e empty_frame_def rank_players_def)
  show "leaderboard sv (db\<lparr>matches := []\<rparr>) = Inr (None, [Info ''No leaderboard data available.''])"
    by (simp add: leaderboard_def fetch_all_matches_def)
next
  fix e
  show "leaderboard sv db \<noteq> Inl e"
  proof (cases "fetch_all_matches db = []")
    case True
    then show ?thesis by (simp add: leaderboard_def)
  next
    case False
    then have "''avg_acs'' \<in> set (columns (aggregate_player_stats (fetch_all_matches db)))"
      by (rule aggregate_has_avg_acs)
    then have "\<exists>ranked. rank_players sv (aggregate_player_stats (fetch_all_matches db)) = Inr ranked"
      by (simp add: rank_players_def Let_def)
    with False show ?thesis by (auto simp: leaderboard_def Let_def)
  qed
qed

text \<open>
  C9 as stated fails: ranking the aggregate of the empty input is an error, not an empty
  sequence.
\<close>

theorem rank_of_empty_aggregate_raises:
  "rank_players stable_sort_values (aggregate_player_stats []) = Inl (KeyError ''avg_acs'')"
  by (simp add: aggregate_player_stats_def empty_frame_def rank_players_def)

end
